theory Spec2Isabelle
  imports Complex_Main "HOL-Library.Sublist"
begin

section \<open>Python values\<close>

text \<open>
  Payloads are what \<^verbatim>\<open>json.loads\<close> returns: \<^verbatim>\<open>None\<close>, booleans, integers,
  strings, lists and dictionaries with string keys.  A dictionary is an association
  list with distinct keys, in insertion order.  The device reports W and Wh as
  integers; JSON numbers with a fractional part are outside the model.
\<close>

datatype json =
    JNull
  | JBool bool
  | JInt int
  | JStr string
  | JList "json list"
  | JObj "(string \<times> json) list"

text \<open>The exceptions the modelled code can raise.\<close>

datatype exc =
    TypeError | ValueError | KeyError | IndexError | AttributeError
  | OverflowError | ZeroDivisionError | SystemExit

section \<open>Strings\<close>

text \<open>\<^verbatim>\<open>s.find(pat)\<close>: the index of the first occurrence, \<open>None\<close> for \<^verbatim>\<open>-1\<close>.\<close>

fun str_find :: "string \<Rightarrow> string \<Rightarrow> nat option" where
  "str_find pat [] = (if pat = [] then Some 0 else None)"
| "str_find pat (c # s) =
     (if take (length pat) (c # s) = pat then Some 0
      else map_option Suc (str_find pat s))"

text \<open>\<^verbatim>\<open>s.find(pat, start)\<close>.\<close>

definition str_find_from :: "string \<Rightarrow> string \<Rightarrow> nat \<Rightarrow> nat option" where
  "str_find_from pat s start =
     (if start > length s then None
      else map_option (\<lambda>i. i + start) (str_find pat (drop start s)))"

text \<open>\<^verbatim>\<open>pat in s\<close> on strings.\<close>

definition str_contains :: "string \<Rightarrow> string \<Rightarrow> bool" where
  "str_contains pat s = (str_find pat s \<noteq> None)"

text \<open>\<^verbatim>\<open>sep.join(xs)\<close>.\<close>

fun join :: "string \<Rightarrow> string list \<Rightarrow> string" where
  "join sep [] = []"
| "join sep [x] = x"
| "join sep (x # y # ys) = x @ sep @ join sep (y # ys)"

definition digit_char :: "nat \<Rightarrow> char" where
  "digit_char d = ''0123456789'' ! d"

fun str_of_nat :: "nat \<Rightarrow> string" where
  "str_of_nat n =
     (if n < 10 then [digit_char n] else str_of_nat (n div 10) @ [digit_char (n mod 10)])"

definition str_of_int :: "int \<Rightarrow> string" where
  "str_of_int i = (if i < 0 then CHR ''-'' # str_of_nat (nat (- i)) else str_of_nat (nat i))"

text \<open>
  \<^verbatim>\<open>repr(v)\<close> and \<^verbatim>\<open>str(v)\<close>, also what an f-string inserts.  The quoting of a
  string inside a container is idealised: always single quotes, no escapes.
\<close>

fun py_repr :: "json \<Rightarrow> string" where
  "py_repr JNull = ''None''"
| "py_repr (JBool b) = (if b then ''True'' else ''False'')"
| "py_repr (JInt i) = str_of_int i"
| "py_repr (JStr s) = [CHR 0x27] @ s @ [CHR 0x27]"
| "py_repr (JList xs) = ''['' @ join '', '' (map py_repr xs) @ '']''"
| "py_repr (JObj kvs) =
     ''{'' @ join '', ''
        (map (\<lambda>kv. [CHR 0x27] @ fst kv @ [CHR 0x27] @ '': '' @ py_repr (snd kv)) kvs) @ ''}''"

definition py_str :: "json \<Rightarrow> string" where
  "py_str v = (case v of JStr s \<Rightarrow> s | _ \<Rightarrow> py_repr v)"

text \<open>
  \<^verbatim>\<open>int(s)\<close> on a string: surrounding ASCII whitespace, an optional sign, decimal
  digits.  Underscore separators and non-ASCII digits are not modelled.
\<close>

definition is_space :: "char \<Rightarrow> bool" where
  "is_space ch = (ch \<in> set [CHR '' '', CHR 0x09, CHR 0x0A, CHR 0x0B, CHR 0x0C, CHR 0x0D])"

definition strip :: "string \<Rightarrow> string" where
  "strip s = rev (dropWhile is_space (rev (dropWhile is_space s)))"

definition is_digit :: "char \<Rightarrow> bool" where
  "is_digit ch = ((48::nat) \<le> of_char ch \<and> of_char ch \<le> (57::nat))"

definition nat_of_digits :: "string \<Rightarrow> nat" where
  "nat_of_digits ds = foldl (\<lambda>acc ch. 10 * acc + (of_char ch - 48)) 0 ds"

definition int_of_string :: "string \<Rightarrow> exc + int" where
  "int_of_string s =
     (let t = strip s;
          neg = (t \<noteq> [] \<and> hd t = CHR ''-'');
          ds = (if t \<noteq> [] \<and> (hd t = CHR ''-'' \<or> hd t = CHR ''+'') then tl t else t)
      in if ds \<noteq> [] \<and> list_all is_digit ds
         then Inr (if neg then - int (nat_of_digits ds) else int (nat_of_digits ds))
         else Inl ValueError)"

section \<open>Operations on Python values\<close>

text \<open>Truth value, as \<^verbatim>\<open>if v:\<close> and \<^verbatim>\<open>v or 0\<close> test it.\<close>

fun truthy :: "json \<Rightarrow> bool" where
  "truthy JNull = False"
| "truthy (JBool b) = b"
| "truthy (JInt i) = (i \<noteq> 0)"
| "truthy (JStr s) = (s \<noteq> [])"
| "truthy (JList xs) = (xs \<noteq> [])"
| "truthy (JObj kvs) = (kvs \<noteq> [])"

definition py_or :: "json \<Rightarrow> json \<Rightarrow> json" where
  "py_or a b = (if truthy a then a else b)"

fun is_list :: "json \<Rightarrow> bool" where
  "is_list (JList xs) = True"
| "is_list v = False"

fun is_dict :: "json \<Rightarrow> bool" where
  "is_dict (JObj kvs) = True"
| "is_dict v = False"

text \<open>\<^verbatim>\<open>len(v)\<close>.\<close>

fun py_len :: "json \<Rightarrow> exc + nat" where
  "py_len (JStr s) = Inr (length s)"
| "py_len (JList xs) = Inr (length xs)"
| "py_len (JObj kvs) = Inr (length kvs)"
| "py_len v = Inl TypeError"

text \<open>\<^verbatim>\<open>xs[i]\<close> on a Python sequence; a negative index counts from the end.\<close>

definition seq_index :: "'a list \<Rightarrow> int \<Rightarrow> exc + 'a" where
  "seq_index xs i =
     (if 0 \<le> i \<and> i < int (length xs) then Inr (xs ! nat i)
      else if i < 0 \<and> - i \<le> int (length xs) then Inr (xs ! nat (int (length xs) + i))
      else Inl IndexError)"

text \<open>
  \<^verbatim>\<open>v[i]\<close> with an integer \<open>i\<close>.  The keys of a parsed JSON object are strings, so
  an integer key is never present.
\<close>

fun py_index :: "json \<Rightarrow> int \<Rightarrow> exc + json" where
  "py_index (JList xs) i = seq_index xs i"
| "py_index (JStr s) i = map_sum id (\<lambda>ch. JStr [ch]) (seq_index s i)"
| "py_index (JObj kvs) i = Inl KeyError"
| "py_index v i = Inl TypeError"

text \<open>\<^verbatim>\<open>v[key]\<close> with a string key.\<close>

fun py_key :: "json \<Rightarrow> string \<Rightarrow> exc + json" where
  "py_key (JObj kvs) k = (case map_of kvs k of Some v \<Rightarrow> Inr v | None \<Rightarrow> Inl KeyError)"
| "py_key v k = Inl TypeError"

text \<open>\<^verbatim>\<open>key in v\<close> with a string key.\<close>

fun py_in :: "string \<Rightarrow> json \<Rightarrow> exc + bool" where
  "py_in k (JObj kvs) = Inr (map_of kvs k \<noteq> None)"
| "py_in k (JList xs) = Inr (JStr k \<in> set xs)"
| "py_in k (JStr s) = Inr (str_contains k s)"
| "py_in k v = Inl TypeError"

text \<open>\<^verbatim>\<open>d.get(key, default)\<close> on a dictionary.\<close>

definition dict_get :: "(string \<times> json) list \<Rightarrow> string \<Rightarrow> json \<Rightarrow> json" where
  "dict_get kvs k d = (case map_of kvs k of Some v \<Rightarrow> v | None \<Rightarrow> d)"

text \<open>\<^verbatim>\<open>v.get(key, default)\<close> on any value: only a dictionary has the method.\<close>

fun py_get :: "json \<Rightarrow> string \<Rightarrow> json \<Rightarrow> exc + json" where
  "py_get (JObj kvs) k d = Inr (dict_get kvs k d)"
| "py_get v k d = Inl AttributeError"

text \<open>Iteration \<^verbatim>\<open>for x in v\<close>: the elements, the keys, the characters.\<close>

fun py_iter :: "json \<Rightarrow> exc + json list" where
  "py_iter (JList xs) = Inr xs"
| "py_iter (JObj kvs) = Inr (map (\<lambda>kv. JStr (fst kv)) kvs)"
| "py_iter (JStr s) = Inr (map (\<lambda>ch. JStr [ch]) s)"
| "py_iter v = Inl TypeError"

text \<open>A value as a number: \<^verbatim>\<open>bool\<close> is a subclass of \<^verbatim>\<open>int\<close>.\<close>

fun as_num :: "json \<Rightarrow> exc + int" where
  "as_num (JInt i) = Inr i"
| "as_num (JBool b) = Inr (if b then 1 else 0)"
| "as_num v = Inl TypeError"

text \<open>\<^verbatim>\<open>int(v)\<close>.\<close>

fun py_int :: "json \<Rightarrow> exc + int" where
  "py_int (JInt i) = Inr i"
| "py_int (JBool b) = Inr (if b then 1 else 0)"
| "py_int (JStr s) = int_of_string s"
| "py_int v = Inl TypeError"

text \<open>\<^verbatim>\<open>a - b\<close>: defined on numbers only.\<close>

definition py_sub :: "json \<Rightarrow> json \<Rightarrow> exc + int" where
  "py_sub a b =
     (case as_num a of Inl e \<Rightarrow> Inl e
      | Inr x \<Rightarrow> (case as_num b of Inl e \<Rightarrow> Inl e | Inr y \<Rightarrow> Inr (x - y)))"

text \<open>\<^verbatim>\<open>v[-2:]\<close> and \<^verbatim>\<open>v[3:5]\<close>; slicing a dictionary raises.\<close>

fun last_two :: "json \<Rightarrow> exc + json" where
  "last_two (JStr s) = Inr (JStr (drop (length s - 2) s))"
| "last_two (JList xs) = Inr (JList (drop (length xs - 2) xs))"
| "last_two (JObj kvs) = Inl KeyError"
| "last_two v = Inl TypeError"

fun slice_3_5 :: "json \<Rightarrow> exc + json" where
  "slice_3_5 (JStr s) = Inr (JStr (take 2 (drop 3 s)))"
| "slice_3_5 (JList xs) = Inr (JList (take 2 (drop 3 xs)))"
| "slice_3_5 (JObj kvs) = Inl KeyError"
| "slice_3_5 v = Inl TypeError"

text \<open>
  Python's \<^verbatim>\<open>round(x)\<close> to an integer, on the exact value of \<open>x\<close>: ties go to the
  even neighbour.
\<close>

definition py_round :: "rat \<Rightarrow> int" where
  "py_round x =
     (let f = \<lfloor>x\<rfloor>; d = x - of_int f
      in if d < 1 / 2 then f else if d > 1 / 2 then f + 1 else if even f then f else f + 1)"

subsection \<open>Floats\<close>

text \<open>
  A Python float is an IEEE 754 binary64 number; a finite one is kept as the rational it
  denotes.  \<open>bit_length n\<close> is \<^verbatim>\<open>n.bit_length()\<close>, and \<open>exponent x\<close>, for a positive
  \<open>x\<close>, is the \<open>e\<close> with \<open>2^e \<le> x < 2^(e+1)\<close>.
\<close>

fun bit_length :: "nat \<Rightarrow> nat" where
  "bit_length n = (if n = 0 then 0 else Suc (bit_length (n div 2)))"

declare bit_length.simps [simp del]

definition exponent :: "rat \<Rightarrow> int" where
  "exponent x =
     (if 1 \<le> x then int (bit_length (nat \<lfloor>x\<rfloor>)) - 1
      else - int (bit_length (nat (\<lceil>1 / x\<rceil> - 1))))"

text \<open>
  The float nearest to a rational, ties to the even significand: 53 significant bits,
  and steps of \<open>2^-1074\<close> in the subnormal range.  The exponent is not bounded above
  here; \<open>finite_float\<close> tells whether the rounded value is below \<open>2^1024\<close>, that is,
  whether the operation that produced \<open>x\<close> stays within the floats.
\<close>

definition float_of :: "rat \<Rightarrow> rat" where
  "float_of x =
     (if x = 0 then 0
      else let q = max (exponent \<bar>x\<bar> - 52) (- 1074)
           in of_int (py_round (x / 2 powi q)) * 2 powi q)"

definition finite_float :: "rat \<Rightarrow> bool" where
  "finite_float x = (\<bar>float_of x\<bar> < 2 ^ 1024)"

text \<open>
  \<^verbatim>\<open>a / b\<close> on two integers: the quotient correctly rounded, \<^verbatim>\<open>ZeroDivisionError\<close> for a
  zero divisor, \<^verbatim>\<open>OverflowError\<close> when the result is too large for a float.
\<close>

definition int_truediv :: "int \<Rightarrow> int \<Rightarrow> exc + rat" where
  "int_truediv a b =
     (if b = 0 then Inl ZeroDivisionError
      else if finite_float (of_int a / of_int b) then Inr (float_of (of_int a / of_int b))
      else Inl OverflowError)"

text \<open>
  \<^verbatim>\<open>x * y\<close> on two finite floats, neither of them zero when the other is large: the
  product correctly rounded, and an infinity (\<open>None\<close>, of either sign) when it is too
  large.  A float times an integer literal such as \<^verbatim>\<open>1000\<close> is this product with the
  float \<^verbatim>\<open>1000.0\<close>.
\<close>

definition float_mul :: "rat \<Rightarrow> rat \<Rightarrow> rat option" where
  "float_mul x y = (if finite_float (x * y) then Some (float_of (x * y)) else None)"

text \<open>\<^verbatim>\<open>round(x)\<close> on a float: an infinity raises \<^verbatim>\<open>OverflowError\<close>.\<close>

definition round_float :: "rat option \<Rightarrow> exc + int" where
  "round_float x = (case x of None \<Rightarrow> Inl OverflowError | Some r \<Rightarrow> Inr (py_round r))"

text \<open>
  What the program hands to the publisher: a JSON-like value, or a float it computed
  (always a finite one).
\<close>

datatype pyval = Js json | Fl rat

section \<open>The HTTP client (solar_log_client.py)\<close>

text \<open>
  The transport is an external collaborator.  One exchange (request, status, headers,
  body read) either yields a response or raises \<^verbatim>\<open>aiohttp.ClientError\<close> or
  \<^verbatim>\<open>asyncio.TimeoutError\<close>.  A response carries its status, its \<^verbatim>\<open>set-cookie\<close>
  header (\<^verbatim>\<open>""\<close> when absent) and its body text.
\<close>

datatype http_outcome =
    Response int string string
  | ClientError
  | TimeoutError

text \<open>The requests the client issues, as a log; headers and the URL timestamp are left out.\<close>

datatype http_request =
    LoginPost
  | LogcheckGet
  | JsonGet string
  | GetjpPost string

text \<open>
  The outcome of an exchange may depend on everything sent so far, the current request
  included.
\<close>

type_synonym transport = "http_request list \<Rightarrow> http_outcome"

record client =
  user_pass :: bool
  session_open :: bool
  data_token :: string
  request_counter :: nat
  login_failures :: nat
  sent :: "http_request list"
  slept :: "rat list"

definition MAX_REQUEST_FAILURES :: nat where
  "MAX_REQUEST_FAILURES = 4"

text \<open>\<^verbatim>\<open>SolarLogClient.__init__\<close> followed by \<^verbatim>\<open>initialize\<close>.\<close>

definition new_client :: "bool \<Rightarrow> client" where
  "new_client creds =
     \<lparr>user_pass = creds, session_open = True, data_token = [],
      request_counter = 0, login_failures = 0, sent = [], slept = []\<rparr>"

text \<open>Issue one request: log it and ask the transport.\<close>

definition exchange :: "transport \<Rightarrow> http_request \<Rightarrow> client \<Rightarrow> http_outcome \<times> client" where
  "exchange net req c =
     (let c' = c\<lparr>sent := sent c @ [req]\<rparr> in (net (sent c'), c'))"

text \<open>The token between \<^verbatim>\<open>SolarLog=\<close> and the next \<^verbatim>\<open>;\<close> of the cookie header.\<close>

definition extract_token :: "string \<Rightarrow> string option" where
  "extract_token set_cookie =
     (case str_find ''SolarLog='' set_cookie of
        None \<Rightarrow> None
      | Some i \<Rightarrow>
          (let token_start = i + 9;
               token_end = (case str_find_from '';'' set_cookie token_start of
                              None \<Rightarrow> length set_cookie
                            | Some e \<Rightarrow> e)
           in Some (take (token_end - token_start) (drop token_start set_cookie))))"

definition login :: "transport \<Rightarrow> client \<Rightarrow> bool \<times> client" where
  "login net c =
     (if \<not> user_pass c \<or> \<not> session_open c then (True, c)
      else
        (case exchange net LoginPost c of
           (Response status set_cookie body, c1) \<Rightarrow>
             (if status = 200 then
                (case extract_token set_cookie of
                   Some tok \<Rightarrow> (True, c1\<lparr>data_token := tok, login_failures := 0\<rparr>)
                 | None \<Rightarrow> (False, c1))
              else (False, c1\<lparr>login_failures := login_failures c1 + 1\<rparr>))
         | (ClientError, c1) \<Rightarrow> (False, c1\<lparr>login_failures := login_failures c1 + 1\<rparr>)
         | (TimeoutError, c1) \<Rightarrow> (False, c1\<lparr>login_failures := login_failures c1 + 1\<rparr>)))"

text \<open>\<^verbatim>\<open>body.split(";")[0]\<close>.\<close>

definition first_field :: "string \<Rightarrow> string" where
  "first_field body = takeWhile (\<lambda>ch. ch \<noteq> CHR '';'') body"

definition check_login_status :: "transport \<Rightarrow> client \<Rightarrow> bool \<times> client" where
  "check_login_status net c =
     (if \<not> user_pass c \<or> \<not> session_open c then (True, c)
      else
        (case exchange net LogcheckGet c of
           (Response status set_cookie body, c1) \<Rightarrow>
             (if status = 200 then
                (if first_field body \<noteq> ''0'' then (True, c1) else login net c1)
              else (False, c1))
         | (ClientError, c1) \<Rightarrow> (False, c1)
         | (TimeoutError, c1) \<Rightarrow> (False, c1)))"

text \<open>
  \<^verbatim>\<open>make_request\<close>.  The parser \<^verbatim>\<open>json.loads\<close> is a parameter; \<open>None\<close> is its
  \<^verbatim>\<open>JSONDecodeError\<close>.  The result \<open>JNull\<close> is Python's \<^verbatim>\<open>None\<close>.
\<close>

definition make_request ::
  "(string \<Rightarrow> json option) \<Rightarrow> transport \<Rightarrow> string \<Rightarrow> client \<Rightarrow> json \<times> client" where
  "make_request loads net request_data c =
     (if \<not> session_open c then (JNull, c)
      else if str_contains ''.json'' request_data then
        (case exchange net (JsonGet request_data) c of
           (Response status set_cookie body, c1) \<Rightarrow>
             (if status = 200 then
                (case loads body of Some data \<Rightarrow> (data, c1) | None \<Rightarrow> (JNull, c1))
              else (JNull, c1))
         | (ClientError, c1) \<Rightarrow> (JNull, c1\<lparr>request_counter := request_counter c1 + 1\<rparr>)
         | (TimeoutError, c1) \<Rightarrow> (JNull, c1\<lparr>request_counter := request_counter c1 + 1\<rparr>))
      else
        (case exchange net (GetjpPost request_data) c of
           (Response status set_cookie body, c1) \<Rightarrow>
             (if status = 200 then
                (case loads body of
                   Some data \<Rightarrow> (data, c1\<lparr>request_counter := 0\<rparr>)
                 | None \<Rightarrow> (JNull, c1))
              else (JNull, c1))
         | (ClientError, c1) \<Rightarrow> (JNull, c1\<lparr>request_counter := request_counter c1 + 1\<rparr>)
         | (TimeoutError, c1) \<Rightarrow> (JNull, c1\<lparr>request_counter := request_counter c1 + 1\<rparr>)))"

definition request_with_auth_check ::
  "(string \<Rightarrow> json option) \<Rightarrow> transport \<Rightarrow> string \<Rightarrow> client \<Rightarrow> json \<times> client" where
  "request_with_auth_check loads net request_data c =
     (if user_pass c then
        (case check_login_status net c of
           (ok, c1) \<Rightarrow>
             if \<not> ok then (JNull, c1) else make_request loads net request_data c1)
      else make_request loads net request_data c)"

text \<open>
  The loop of \<^verbatim>\<open>request_with_retry\<close> over \<^verbatim>\<open>i = 1 .. max(1, attempts)\<close>; \<open>left\<close>
  counts the iterations still to run.
\<close>

fun retry_loop ::
  "(string \<Rightarrow> json option) \<Rightarrow> transport \<Rightarrow> string \<Rightarrow> nat \<Rightarrow> nat \<Rightarrow> nat \<Rightarrow> rat \<Rightarrow> client
     \<Rightarrow> json \<times> client" where
  "retry_loop loads net request_data attempts i 0 delay c = (JNull, c)"
| "retry_loop loads net request_data attempts i (Suc left) delay c =
     (case request_with_auth_check loads net request_data c of
        (result, c1) \<Rightarrow>
          if result \<noteq> JNull then (result, c1)
          else if i < attempts then
            retry_loop loads net request_data attempts (i + 1) left (min (delay * 2) 30)
              (c1\<lparr>slept := slept c1 @ [delay]\<rparr>)
          else retry_loop loads net request_data attempts (i + 1) left delay c1)"

definition request_with_retry ::
  "(string \<Rightarrow> json option) \<Rightarrow> transport \<Rightarrow> string \<Rightarrow> nat \<Rightarrow> rat \<Rightarrow> client \<Rightarrow> json \<times> client" where
  "request_with_retry loads net request_data attempts base_delay c =
     retry_loop loads net request_data attempts 1 (max 1 attempts) base_delay c"

text \<open>
  \<^verbatim>\<open>https_request\<close> of \<^verbatim>\<open>__main__.py\<close>, up to its decision: hand the payload to a
  decoder, start the bridge restart, or do nothing.
\<close>

datatype request_action =
    ToJsonDecoder json
  | ToResponseDecoder json
  | RestartBridge
  | NoAction

definition https_request ::
  "(string \<Rightarrow> json option) \<Rightarrow> transport \<Rightarrow> string \<Rightarrow> client \<Rightarrow> request_action \<times> client" where
  "https_request loads net req_data c =
     (case request_with_retry loads net req_data 3 1 c of
        (result, c1) \<Rightarrow>
          if result \<noteq> JNull then
            (if str_contains ''.json'' req_data then (ToJsonDecoder result, c1)
             else (ToResponseDecoder result, c1))
          else if request_counter c1 > MAX_REQUEST_FAILURES then (RestartBridge, c1)
          else (NoAction, c1))"

section \<open>The data processor (data_processor.py)\<close>

text \<open>
  The fields of \<^verbatim>\<open>DataProcessor\<close>.  \<open>published\<close> logs the calls of
  \<^verbatim>\<open>MQTTPublisher.publish\<close> in order (it never raises); a publisher is configured.  \<open>running\<close> and \<open>exit_code\<close> are the
  process state of \<^verbatim>\<open>__main__.py\<close>: the global flag and the status passed to
  \<^verbatim>\<open>exit\<close>.  \<open>JNull\<close> in \<open>device_list\<close> and \<open>brand_list\<close> is \<^verbatim>\<open>None\<close>.
\<close>

record dp =
  inverter_names :: "json list"
  device_infos :: "json list"
  device_types :: "json list"
  device_brands :: "json list"
  device_classes :: "string list"
  switch_group_names :: "string option list"
  battery_device_present :: bool
  battery_index :: "nat list"
  device_list :: json
  brand_list :: json
  battery_present :: bool
  last_yield_day :: int
  last_yield_yesterday :: int
  last_selfcons_yesterday_fallback :: json
  last_selfcons_ratio_yesterday_fallback :: pyval
  total_power_w :: int
  published :: "(string \<times> pyval) list"
  running :: bool
  exit_code :: "nat option"

text \<open>\<^verbatim>\<open>DataProcessor.__init__\<close>, in a running process.\<close>

definition init_dp :: dp where
  "init_dp =
     \<lparr>inverter_names = [], device_infos = [], device_types = [], device_brands = [],
      device_classes = [], switch_group_names = [], battery_device_present = False,
      battery_index = [], device_list = JNull, brand_list = JNull, battery_present = False,
      last_yield_day = 0, last_yield_yesterday = 0,
      last_selfcons_yesterday_fallback = JInt 99,
      last_selfcons_ratio_yesterday_fallback = Js (JInt 99),
      total_power_w = 0, published = [], running = True, exit_code = None\<rparr>"

definition MAX_SWITCH_GROUPS :: nat where
  "MAX_SWITCH_GROUPS = 10"

definition DAYS_TO_CHECK_HISTORY :: nat where
  "DAYS_TO_CHECK_HISTORY = 31"

definition EXIT_CODE_RESTART_REQUIRED :: nat where
  "EXIT_CODE_RESTART_REQUIRED = 2"

text \<open>The two umlauts are the code points U+00E4.\<close>

definition DEVICE_CLASS_LIST :: "string list" where
  "DEVICE_CLASS_LIST =
     [''Wechselrichter'', ''Sensor'', ''Z'' @ [CHR 0xE4] @ ''hler'', ''Hybrid-System'',
      ''Batterie'', ''Intelligente Verbraucher'', ''Schalter'',
      ''W'' @ [CHR 0xE4] @ ''rmepumpe'', ''Heizstab'', ''Ladestation'']"

subsection \<open>Effects: state, publications, exceptions\<close>

text \<open>
  A statement runs on the state and either completes with a value or raises; what it
  published and assigned before raising stays.
\<close>

type_synonym 'a run = "dp \<Rightarrow> (exc + 'a) \<times> dp"

definition ret :: "'a \<Rightarrow> 'a run" where
  "ret x = (\<lambda>s. (Inr x, s))"

definition lift :: "exc + 'a \<Rightarrow> 'a run" where
  "lift r = (\<lambda>s. (r, s))"

definition andthen :: "'a run \<Rightarrow> ('a \<Rightarrow> 'b run) \<Rightarrow> 'b run" where
  "andthen m f = (\<lambda>s. case m s of (Inl e, s') \<Rightarrow> (Inl e, s') | (Inr x, s') \<Rightarrow> f x s')"

fun run_all :: "unit run list \<Rightarrow> unit run" where
  "run_all [] = ret ()"
| "run_all (m # ms) = andthen m (\<lambda>_. run_all ms)"

fun for_each :: "'a list \<Rightarrow> ('a \<Rightarrow> unit run) \<Rightarrow> unit run" where
  "for_each [] f = ret ()"
| "for_each (x # xs) f = andthen (f x) (\<lambda>_. for_each xs f)"

text \<open>\<^verbatim>\<open>try: m  except <classes>: h\<close>, the classes given as a predicate.\<close>

definition try_except :: "'a run \<Rightarrow> (exc \<Rightarrow> bool) \<Rightarrow> 'a run \<Rightarrow> 'a run" where
  "try_except m caught h =
     (\<lambda>s. case m s of
             (Inl e, s') \<Rightarrow> if caught e then h s' else (Inl e, s')
           | (Inr x, s') \<Rightarrow> (Inr x, s'))"

text \<open>\<^verbatim>\<open>except Exception\<close> catches everything but \<^verbatim>\<open>SystemExit\<close>.\<close>

definition Exception :: "exc \<Rightarrow> bool" where
  "Exception e = (e \<noteq> SystemExit)"

definition publish :: "string \<Rightarrow> pyval \<Rightarrow> unit run" where
  "publish topic v = (\<lambda>s. (Inr (), s\<lparr>published := published s @ [(topic, v)]\<rparr>))"

subsection \<open>Device classification\<close>

text \<open>The local helper \<^verbatim>\<open>get_from_indexed\<close> of \<^verbatim>\<open>classify_devices\<close>.\<close>

fun get_from_indexed :: "json \<Rightarrow> json \<Rightarrow> exc + json" where
  "get_from_indexed JNull idx = Inr JNull"
| "get_from_indexed (JList xs) idx =
     (case as_num idx of
        Inl e \<Rightarrow> Inl TypeError
      | Inr i \<Rightarrow> Inr (if 0 \<le> i \<and> i < int (length xs) then xs ! nat i else JNull))"
| "get_from_indexed (JObj kvs) idx =
     (case idx of
        JList ys \<Rightarrow> Inl TypeError
      | JObj ys \<Rightarrow> Inl TypeError
      | _ \<Rightarrow> Inr (dict_get kvs (py_str idx) JNull))"
| "get_from_indexed container idx = Inr JNull"

text \<open>\<^verbatim>\<open>try: x = int(v)  except Exception: x = v\<close>.\<close>

definition int_or_self :: "json \<Rightarrow> json" where
  "int_or_self v = (case py_int v of Inr i \<Rightarrow> JInt i | Inl e \<Rightarrow> v)"

fun floor_log2 :: "nat \<Rightarrow> nat" where
  "floor_log2 n = (if n < 2 then 0 else Suc (floor_log2 (n div 2)))"

text \<open>
  \<^verbatim>\<open>int(math.log(dclass_val) / math.log(2))\<close>.  The quotient of the two float
  logarithms truncates to \<open>floor_log2\<close> for every argument below \<open>2^20\<close>; from there on
  both are at least 10, which is all the caller distinguishes.
\<close>

definition class_index :: "int \<Rightarrow> nat" where
  "class_index dclass_val = floor_log2 (nat dclass_val)"

text \<open>The lists the loop of \<^verbatim>\<open>classify_devices\<close> appends to.\<close>

record cls_acc =
  acc_types :: "json list"
  acc_brands :: "json list"
  acc_classes :: "string list"
  acc_battery_index :: "nat list"
  acc_battery_device_present :: bool

definition append_unknown :: "cls_acc \<Rightarrow> cls_acc" where
  "append_unknown acc =
     acc\<lparr>acc_types := acc_types acc @ [JStr ''Unknown''],
         acc_brands := acc_brands acc @ [JStr ''Unknown''],
         acc_classes := acc_classes acc @ [''Wechselrichter'']\<rparr>"

text \<open>The device type, \<^verbatim>\<open>device_info[1]\<close> of a list with more than one entry.\<close>

definition device_type_of :: "json \<Rightarrow> json" where
  "device_type_of device_info =
     (case device_info of
        JList xs \<Rightarrow> if length xs > 1 then xs ! 1 else JStr ''Unknown''
      | _ \<Rightarrow> JStr ''Unknown'')"

text \<open>The brand index, \<^verbatim>\<open>device_info[0]\<close> of a non-empty list, else 0.\<close>

definition brand_idx_of :: "json \<Rightarrow> json" where
  "brand_idx_of device_info =
     (case device_info of
        JList xs \<Rightarrow> if length xs > 0 then xs ! 0 else JInt 0
      | _ \<Rightarrow> JInt 0)"

text \<open>\<^verbatim>\<open>device_info[5]\<close> as an integer, or \<open>None\<close>.\<close>

definition dclass_of :: "json \<Rightarrow> int option" where
  "dclass_of device_info =
     (case device_info of
        JList xs \<Rightarrow>
          (if length xs > 5 then
             (case py_int (xs ! 5) of
                Inr v \<Rightarrow> Some v
              | Inl e \<Rightarrow>
                  (case int_of_string (strip (py_str (xs ! 5))) of
                     Inr v \<Rightarrow> Some v
                   | Inl e' \<Rightarrow> None))
           else None)
      | _ \<Rightarrow> None)"

definition device_class_of :: "int option \<Rightarrow> string" where
  "device_class_of dclass_val =
     (case dclass_val of
        Some v \<Rightarrow>
          (if v \<noteq> 0 \<and> v > 0 then
             (if class_index v < length DEVICE_CLASS_LIST
              then DEVICE_CLASS_LIST ! class_index v else ''Wechselrichter'')
           else ''Wechselrichter'')
      | None \<Rightarrow> ''Wechselrichter'')"

text \<open>
  One iteration of the loop.  The inner handler takes \<^verbatim>\<open>IndexError\<close>,
  \<^verbatim>\<open>ValueError\<close> and \<^verbatim>\<open>TypeError\<close>; it runs on top of whatever the iteration has
  appended already.  Any other exception leaves the loop (\<open>Inl\<close>).
\<close>

definition inner_caught :: "exc \<Rightarrow> bool" where
  "inner_caught e = (e = IndexError \<or> e = ValueError \<or> e = TypeError)"

definition classify_one :: "json \<Rightarrow> json \<Rightarrow> nat \<Rightarrow> json \<Rightarrow> cls_acc \<Rightarrow> exc + cls_acc" where
  "classify_one dlist blist i info_code acc =
     (case get_from_indexed dlist (int_or_self info_code) of
        Inl e \<Rightarrow> if inner_caught e then Inr (append_unknown acc) else Inl e
      | Inr device_info \<Rightarrow>
          if truthy device_info then
            (let acc1 = acc\<lparr>acc_types := acc_types acc @ [device_type_of device_info]\<rparr>
             in case get_from_indexed blist (int_or_self (brand_idx_of device_info)) of
                  Inl e \<Rightarrow> if inner_caught e then Inr (append_unknown acc1) else Inl e
                | Inr b \<Rightarrow>
                    (let device_brand = (if b = JNull then JStr ''Unknown'' else b);
                         acc2 = acc1\<lparr>acc_brands := acc_brands acc1 @ [device_brand]\<rparr>;
                         device_class = device_class_of (dclass_of device_info);
                         acc3 = acc2\<lparr>acc_classes := acc_classes acc2 @ [device_class]\<rparr>
                     in if device_class = ''Batterie''
                        then Inr (acc3\<lparr>acc_battery_device_present := True,
                                       acc_battery_index := acc_battery_index acc3 @ [i]\<rparr>)
                        else Inr acc3))
          else Inr (append_unknown acc))"

text \<open>The loop over \<^verbatim>\<open>enumerate(zip(inverter_names, device_infos))\<close>, from index \<open>i\<close>.\<close>

fun classify_loop ::
  "json \<Rightarrow> json \<Rightarrow> nat \<Rightarrow> (json \<times> json) list \<Rightarrow> cls_acc \<Rightarrow> exc + cls_acc" where
  "classify_loop dlist blist i [] acc = Inr acc"
| "classify_loop dlist blist i ((name, info_code) # rest) acc =
     (case classify_one dlist blist i info_code acc of
        Inl e \<Rightarrow> Inl e
      | Inr acc' \<Rightarrow> classify_loop dlist blist (Suc i) rest acc')"

definition placeholders :: "dp \<Rightarrow> dp" where
  "placeholders s =
     s\<lparr>device_types := replicate (length (inverter_names s)) (JStr ''Unknown''),
       device_brands := replicate (length (inverter_names s)) (JStr ''Unknown''),
       device_classes := replicate (length (inverter_names s)) ''Wechselrichter''\<rparr>"

definition classify_devices :: "dp \<Rightarrow> dp" where
  "classify_devices s =
     (if \<not> truthy (device_list s) \<or> \<not> truthy (brand_list s) \<or> device_infos s = []
      then placeholders s
      else
        (case classify_loop (device_list s) (brand_list s) 0
                (zip (inverter_names s) (device_infos s))
                \<lparr>acc_types = [], acc_brands = [], acc_classes = [],
                 acc_battery_index = [], acc_battery_device_present = False\<rparr> of
           Inr acc \<Rightarrow>
             s\<lparr>device_types := acc_types acc,
               device_brands := acc_brands acc,
               device_classes := acc_classes acc,
               battery_device_present := acc_battery_device_present acc,
               battery_index := acc_battery_index acc\<rparr>
         | Inl e \<Rightarrow> placeholders s))"

subsection \<open>Fast poll\<close>

text \<open>
  \<^verbatim>\<open>x[idx] if idx < len(x) else d\<close> on a list, and
  \<^verbatim>\<open>x.get(str(idx), x.get(idx, d))\<close> on anything else.
\<close>

fun by_index_or_key :: "json \<Rightarrow> nat \<Rightarrow> json \<Rightarrow> exc + json" where
  "by_index_or_key (JList xs) idx d = Inr (if idx < length xs then xs ! idx else d)"
| "by_index_or_key (JObj kvs) idx d = Inr (dict_get kvs (str_of_nat idx) d)"
| "by_index_or_key v idx d = Inl AttributeError"

definition process_inverter_status :: "(string \<times> json) list \<Rightarrow> unit run" where
  "process_inverter_status data = (\<lambda>s.
     (case (map_of data ''608'', map_of data ''782'') of
        (Some status_data, Some pac_data) \<Rightarrow>
          if inverter_names s \<noteq> [] then
            for_each [0..<length (inverter_names s)] (\<lambda>idx.
              if idx < length (device_classes s) \<and> device_classes s ! idx \<noteq> ''Batterie'' then
                andthen (lift (by_index_or_key status_data idx (JStr ''Unknown''))) (\<lambda>status.
                andthen (publish (''INV/'' @ py_str (inverter_names s ! idx) @ ''/status'')
                           (Js status)) (\<lambda>_.
                andthen (lift (by_index_or_key pac_data idx (JInt 0))) (\<lambda>pac_value.
                andthen (lift (if truthy pac_value then py_int pac_value else Inr 0)) (\<lambda>pac.
                publish (''INV/'' @ py_str (inverter_names s ! idx) @ ''/PAC'')
                  (Js (JInt pac))))))
              else ret ()) s
          else (Inr (), s)
      | _ \<Rightarrow> (Inr (), s)))"

text \<open>The value of one inverter in an optional per-inverter table (784, 785).\<close>

fun extra_value :: "json \<Rightarrow> nat \<Rightarrow> exc + int" where
  "extra_value (JList xs) idx =
     (if idx < length xs \<and> xs ! idx \<noteq> JNull then py_int (xs ! idx) else Inr 0)"
| "extra_value (JObj kvs) idx =
     (let raw = dict_get kvs (str_of_nat idx) JNull
      in if raw \<noteq> JNull then py_int raw else Inr 0)"
| "extra_value v idx = Inr 0"

definition process_inverter_extras :: "(string \<times> json) list \<Rightarrow> unit run" where
  "process_inverter_extras data = (\<lambda>s.
     if inverter_names s = [] then (Inr (), s)
     else
       for_each [(''784'', ''UAC''), (''785'', ''UDC'')] (\<lambda>(key, suffix).
         case map_of data key of
           None \<Rightarrow> ret ()
         | Some arr \<Rightarrow>
             for_each (zip [0..<length (inverter_names s)] (inverter_names s)) (\<lambda>(idx, name).
               try_except
                 (andthen (lift (extra_value arr idx)) (\<lambda>val.
                  publish (''INV/'' @ py_str name @ ''/'' @ suffix) (Js (JInt val))))
                 Exception (ret ()))) s)"

definition sg_caught :: "exc \<Rightarrow> bool" where
  "sg_caught e = (e = KeyError \<or> e = TypeError \<or> e = IndexError)"

definition process_switch_group_states :: "(string \<times> json) list \<Rightarrow> unit run" where
  "process_switch_group_states data = (\<lambda>s.
     (case dict_get data ''801'' JNull of
        JObj block_801 \<Rightarrow>
          (case map_of block_801 ''175'' of
             Some sg_data \<Rightarrow>
               if switch_group_names s \<noteq> [] then
                 for_each [0..<min MAX_SWITCH_GROUPS (length (switch_group_names s))] (\<lambda>sgsj.
                   case switch_group_names s ! sgsj of
                     None \<Rightarrow> ret ()
                   | Some sg_name \<Rightarrow>
                       if sg_name = [] then ret ()
                       else
                         try_except
                           (andthen (lift (py_len sg_data)) (\<lambda>n.
                            if sgsj < n then
                              andthen (lift (py_index sg_data (int sgsj))) (\<lambda>entry.
                                if truthy entry then
                                  (case entry of
                                     JObj e \<Rightarrow>
                                       (let sg_state = dict_get e ''101'' JNull
                                        in if sg_state \<noteq> JNull
                                           then publish (''SwitchGroup/'' @ sg_name @ ''/state'')
                                                  (Js sg_state)
                                           else ret ())
                                   | _ \<Rightarrow> ret ())
                                else ret ())
                            else ret ()))
                           sg_caught (ret ())) s
               else (Inr (), s)
           | None \<Rightarrow> (Inr (), s))
      | _ \<Rightarrow> (Inr (), s)))"

text \<open>\<^verbatim>\<open>battery_data.extend(zeros)\<close>: only a list has the method.\<close>

fun py_extend :: "json \<Rightarrow> json list \<Rightarrow> exc + json" where
  "py_extend (JList xs) ys = Inr (JList (xs @ ys))"
| "py_extend v ys = Inl AttributeError"

definition process_battery_data :: "(string \<times> json) list \<Rightarrow> json run" where
  "process_battery_data data = (\<lambda>s.
     (case map_of data ''858'' of
        None \<Rightarrow> (Inr (JList [JInt 0, JInt 0, JInt 0, JInt 0]), s)
      | Some v \<Rightarrow>
          andthen (lift (py_len (py_or v (JList [JInt 0, JInt 0, JInt 0, JInt 0])))) (\<lambda>n.
          andthen (lift (if n < 4
                         then py_extend (py_or v (JList [JInt 0, JInt 0, JInt 0, JInt 0]))
                                (replicate (4 - n) (JInt 0))
                         else Inr (py_or v (JList [JInt 0, JInt 0, JInt 0, JInt 0]))))
            (\<lambda>battery_data.
          andthen
            (if battery_present s \<and> battery_device_present s \<and> battery_index s \<noteq> [] then
               (if hd (battery_index s) < length (inverter_names s) then
                  (let nm = py_str (inverter_names s ! hd (battery_index s)) in
                   run_all
                     [andthen (lift (py_index battery_data 1)) (\<lambda>x.
                        publish (''INV/'' @ nm @ ''/BattLevel'') (Js x)),
                      andthen (lift (py_index battery_data 2)) (\<lambda>x.
                        publish (''INV/'' @ nm @ ''/ChargePower'') (Js x)),
                      andthen (lift (py_index battery_data 3)) (\<lambda>x.
                        publish (''INV/'' @ nm @ ''/DischargePower'') (Js x))])
                else ret ())
             else ret ())
            (\<lambda>_. ret battery_data))) s))"

definition process_production_consumption :: "(string \<times> json) list \<Rightarrow> json \<Rightarrow> unit run" where
  "process_production_consumption data battery_data =
     (case (map_of data ''780'', map_of data ''781'') of
        (Some v780, Some v781) \<Rightarrow>
          (let production = py_or v780 (JInt 0);
               consumption = py_or v781 (JInt 0)
           in
           andthen (lift (py_index battery_data 3)) (\<lambda>b3.
           andthen (lift (py_sub production b3)) (\<lambda>net_production.
           andthen (lift (py_index battery_data 2)) (\<lambda>b2.
           andthen (lift (py_sub consumption b2)) (\<lambda>net_consumption.
           andthen (publish ''status/pac'' (Js (JInt net_production))) (\<lambda>_.
           andthen (publish ''status/conspac'' (Js (JInt net_consumption))) (\<lambda>_.
           andthen (lift (py_sub production consumption)) (\<lambda>feed.
           andthen (publish ''status/feed'' (Js (JInt feed))) (\<lambda>_.
           if feed > 0 then
             run_all
               [publish ''status/feedin'' (Js (JInt feed)),
                publish ''status/feedinactive'' (Js (JBool True)),
                publish ''status/feedout'' (Js (JInt 0))]
           else
             run_all
               [publish ''status/feedin'' (Js (JInt 0)),
                publish ''status/feedinactive'' (Js (JBool False)),
                publish ''status/feedout'' (Js (JInt \<bar>feed\<bar>))])))))))))
      | _ \<Rightarrow> ret ())"

text \<open>\<^verbatim>\<open>f(x) for x in xs\<close> where \<open>f\<close> may raise: the first exception ends it.\<close>

fun map_exc :: "('a \<Rightarrow> exc + 'b) \<Rightarrow> 'a list \<Rightarrow> exc + 'b list" where
  "map_exc f [] = Inr []"
| "map_exc f (x # xs) =
     (case f x of
        Inl e \<Rightarrow> Inl e
      | Inr y \<Rightarrow> (case map_exc f xs of Inl e \<Rightarrow> Inl e | Inr ys \<Rightarrow> Inr (y # ys)))"

text \<open>The error flag of one display element: its second value, \<^verbatim>\<open>True\<close> if it has none.\<close>

definition error_flag :: "json \<Rightarrow> exc + json" where
  "error_flag el =
     (case py_len el of
        Inl e \<Rightarrow> Inl e
      | Inr n \<Rightarrow> if n > 1 then py_index el 1 else Inr (JBool True))"

definition process_display_data :: "json \<Rightarrow> unit run" where
  "process_display_data display_data =
     try_except
       (case display_data of
          JList xs \<Rightarrow>
            if length xs < 16 then ret ()
            else
              andthen (lift (map_exc error_flag (take (min 16 (length xs)) xs))) (\<lambda>check_ok.
              andthen (publish ''display/OK''
                         (Js (JBool (list_all (\<lambda>errval. \<not> truthy errval) check_ok)))) (\<lambda>_.
              for_each
                [(0, ''invicon'', ''inverror''), (1, ''networkicon'', ''networkerror''),
                 (6, ''metericon'', ''metersoffline''), (11, ''mailicon'', ''mailerror'')]
                (\<lambda>(idx, icon_name, error_name).
                   if idx < length xs then
                     andthen (lift (py_len (xs ! idx))) (\<lambda>n.
                       if n \<ge> 2 then
                         andthen (lift (py_index (xs ! idx) 0)) (\<lambda>icon_value.
                         andthen (lift (py_index (xs ! idx) 1)) (\<lambda>error_value.
                         andthen (publish (''display/'' @ icon_name) (Js icon_value)) (\<lambda>_.
                         publish (''display/'' @ error_name) (Js error_value))))
                       else ret ())
                   else ret ())))
        | _ \<Rightarrow> ret ())
       Exception (ret ())"

definition process_fast_poll :: "json \<Rightarrow> unit run" where
  "process_fast_poll data =
     (case data of
        JObj kvs \<Rightarrow>
          run_all
            [process_inverter_status kvs,
             process_inverter_extras kvs,
             process_switch_group_states kvs,
             (case dict_get kvs ''794'' JNull of
                JObj block_794 \<Rightarrow>
                  (case map_of block_794 ''0'' of
                     Some d \<Rightarrow> process_display_data d
                   | None \<Rightarrow> ret ())
              | _ \<Rightarrow> ret ()),
             andthen (process_battery_data kvs) (\<lambda>battery_data.
               process_production_consumption kvs battery_data)]
      | _ \<Rightarrow> lift (Inl AttributeError))"

subsection \<open>The fast-poll entry of __main__.py\<close>

text \<open>
  \<^verbatim>\<open>stop_solarlog\<close>: the flag goes down and the publisher's \<^verbatim>\<open>disconnect\<close> sends a
  last connection status.
\<close>

definition stop_solarlog :: "unit run" where
  "stop_solarlog =
     andthen (\<lambda>s. (Inr (), s\<lparr>running := False\<rparr>)) (\<lambda>_.
       publish ''info/connection'' (Js (JBool False)))"

text \<open>
  \<^verbatim>\<open>exit(status)\<close> raises \<^verbatim>\<open>SystemExit\<close>, which no \<^verbatim>\<open>except Exception\<close> catches.
  The wait of \<^verbatim>\<open>restart_bridge\<close> before it stops the bridge is not modelled.
\<close>

definition py_exit :: "nat \<Rightarrow> unit run" where
  "py_exit status = (\<lambda>s. (Inl SystemExit, s\<lparr>exit_code := Some status\<rparr>))"

definition restart_bridge :: "string \<Rightarrow> unit run" where
  "restart_bridge reason =
     try_except
       (run_all
          [publish ''info/connection'' (Js (JBool False)),
           publish ''info/restart_reason'' (Js (JStr reason)),
           (\<lambda>s. (Inr (), s\<lparr>running := False\<rparr>)),
           stop_solarlog,
           py_exit EXIT_CODE_RESTART_REQUIRED])
       Exception stop_solarlog"

text \<open>The status \<^verbatim>\<open>check_access_denied\<close> looks at; \<open>JNull\<close> is \<^verbatim>\<open>None\<close>.\<close>

fun first_status :: "json \<Rightarrow> json" where
  "first_status (JList xs) = (if length xs > 0 then xs ! 0 else JNull)"
| "first_status (JObj kvs) = dict_get kvs ''0'' (JStr [])"
| "first_status v = JNull"

definition check_access_denied :: "(string \<times> json) list \<Rightarrow> bool run" where
  "check_access_denied data =
     (case map_of data ''608'' of
        Some v \<Rightarrow>
          if truthy v \<and> first_status v \<noteq> JNull
             \<and> str_contains ''DENIED'' (py_str (first_status v))
          then andthen (restart_bridge ''Access denied'') (\<lambda>_. ret True)
          else ret False
      | None \<Rightarrow> ret False)"

definition process_fast_poll_data :: "json \<Rightarrow> unit run" where
  "process_fast_poll_data data =
     try_except
       (case data of
          JObj kvs \<Rightarrow>
            andthen (check_access_denied kvs) (\<lambda>denied.
              if denied then ret () else process_fast_poll data)
        | _ \<Rightarrow> lift (Inl AttributeError))
       Exception (ret ())"

subsection \<open>Periodic poll\<close>

text \<open>
  The clock is a parameter: \<open>today\<close> and \<open>yesterday\<close> are the two dates formatted
  \<^verbatim>\<open>%d.%m.%y\<close>.
\<close>

text \<open>
  The scan of \<^verbatim>\<open>process_inverter_day_sums\<close>: the first row whose date contains
  \<open>today\<close>.
\<close>

fun find_today :: "string \<Rightarrow> json \<Rightarrow> nat list \<Rightarrow> exc + nat option" where
  "find_today today data [] = Inr None"
| "find_today today data (i # rest) =
     (case py_index data (int i) of
        Inl e \<Rightarrow> Inl e
      | Inr row \<Rightarrow>
          (case py_len row of
             Inl e \<Rightarrow> Inl e
           | Inr n \<Rightarrow>
               if n > 0 then
                 (case py_index row 0 of
                    Inl e \<Rightarrow> Inl e
                  | Inr d \<Rightarrow>
                      if str_contains today (py_str d) then Inr (Some i)
                      else find_today today data rest)
               else find_today today data rest))"

definition process_inverter_day_sums :: "string \<Rightarrow> json \<Rightarrow> unit run" where
  "process_inverter_day_sums today data_suz =
     try_except
       (\<lambda>s.
          if inverter_names s = [] \<or> device_classes s = [] then (Inr (), s)
          else
            andthen (lift (py_len data_suz)) (\<lambda>n.
            andthen (lift (find_today today data_suz [0..<min DAYS_TO_CHECK_HISTORY n]))
              (\<lambda>index_suz.
            case index_suz of
              None \<Rightarrow> ret ()
            | Some i \<Rightarrow>
                andthen (lift (py_index data_suz (int i))) (\<lambda>row.
                andthen (lift (py_len row)) (\<lambda>rl.
                if rl < 2 then ret ()
                else
                  andthen (lift (py_index row 1)) (\<lambda>daysum_data.
                  andthen (lift (if truthy daysum_data then py_len daysum_data else Inr 0))
                    (\<lambda>dl.
                  for_each
                    [0..<min (min (length (inverter_names s)) (length (device_classes s))) dl]
                    (\<lambda>suzi.
                       if suzi < length (device_classes s)
                          \<and> device_classes s ! suzi \<noteq> ''Batterie'' then
                         andthen (lift (py_len daysum_data)) (\<lambda>m.
                         andthen (lift (if suzi < m then py_index daysum_data (int suzi)
                                        else Inr (JInt 0))) (\<lambda>daysum_value.
                         andthen (lift (if truthy daysum_value then py_int daysum_value
                                        else Inr 0)) (\<lambda>v.
                         publish (''INV/'' @ py_str (inverter_names s ! suzi) @ ''/daysum'')
                           (Js (JInt v)))))
                       else ret ()))))))) s)
       Exception (ret ())"

text \<open>
  The scan of \<^verbatim>\<open>process_self_consumption\<close>: the last row containing \<open>today\<close> and the
  last row containing \<open>yesterday\<close>.
\<close>

fun scan_dates ::
  "string \<Rightarrow> string \<Rightarrow> json \<Rightarrow> nat list \<Rightarrow> nat option \<times> nat option
     \<Rightarrow> exc + (nat option \<times> nat option)" where
  "scan_dates today yesterday data [] found = Inr found"
| "scan_dates today yesterday data (i # rest) found =
     (case py_index data (int i) of
        Inl e \<Rightarrow> Inl e
      | Inr row \<Rightarrow>
          (case py_len row of
             Inl e \<Rightarrow> Inl e
           | Inr n \<Rightarrow>
               if n > 0 then
                 (case py_index row 0 of
                    Inl e \<Rightarrow> Inl e
                  | Inr d \<Rightarrow>
                      scan_dates today yesterday data rest
                        (if str_contains today (py_str d) then Some i else fst found,
                         if str_contains yesterday (py_str d) then Some i else snd found))
               else scan_dates today yesterday data rest found))"

text \<open>
  \<^verbatim>\<open>round((value / yield) * 1000) / 10\<close>, a float: the quotient of two integers, its
  product with 1000, the nearest integer, and the quotient of that integer by 10.
\<close>

definition day_ratio :: "json \<Rightarrow> int \<Rightarrow> exc + pyval" where
  "day_ratio v yield =
     (case as_num v of
        Inl e \<Rightarrow> Inl e
      | Inr x \<Rightarrow>
          (case int_truediv x yield of
             Inl e \<Rightarrow> Inl e
           | Inr q \<Rightarrow>
               (case round_float (float_mul q 1000) of
                  Inl e \<Rightarrow> Inl e
                | Inr n \<Rightarrow> map_sum id Fl (int_truediv n 10))))"

text \<open>The three battery day figures of today's row, under the given device name.\<close>

definition battery_day_pubs :: "string \<Rightarrow> json \<Rightarrow> unit run" where
  "battery_day_pubs nm entry_today =
     andthen (lift (py_index entry_today 2)) (\<lambda>e2.
     andthen (lift (py_int e2)) (\<lambda>v2.
     andthen (publish (''INV/'' @ nm @ ''/BattSelfCons'') (Js (JInt v2))) (\<lambda>_.
     andthen (lift (py_index entry_today 3)) (\<lambda>e3.
     andthen (lift (py_int e3)) (\<lambda>v3.
     andthen (publish (''INV/'' @ nm @ ''/BattChargeDaysum'') (Js (JInt v3))) (\<lambda>_.
     andthen (lift (py_index entry_today 4)) (\<lambda>e4.
     andthen (lift (py_int e4)) (\<lambda>v4.
     publish (''INV/'' @ nm @ ''/BattDischargeDaysum'') (Js (JInt v4))))))))))"

text \<open>
  The battery figures of today's row (of length \<open>n\<close>), published when a battery is
  known and the row has at least five fields.
\<close>

definition battery_today_part :: "json \<Rightarrow> nat \<Rightarrow> unit run" where
  "battery_today_part entry_today n = (\<lambda>s.
     (if (battery_device_present s \<or> battery_present s) \<and> n \<ge> 5 then
        (if battery_device_present s \<and> battery_index s \<noteq> [] then
           andthen (lift (seq_index (inverter_names s) (int (hd (battery_index s)))))
             (\<lambda>battery_inv_name. battery_day_pubs (py_str battery_inv_name) entry_today)
         else battery_day_pubs ''Battery'' entry_today)
      else ret ()) s)"

text \<open>The branch of \<^verbatim>\<open>process_self_consumption\<close> for today's row.\<close>

definition selfcons_today_part :: "json \<Rightarrow> nat option \<Rightarrow> unit run" where
  "selfcons_today_part data_selfcons today_index =
     (case today_index of
        None \<Rightarrow> ret ()
      | Some i \<Rightarrow>
          andthen (lift (py_index data_selfcons (int i))) (\<lambda>entry_today.
          andthen (lift (py_len entry_today)) (\<lambda>n.
          if n > 1 then
            andthen (lift (py_index entry_today 1)) (\<lambda>e1.
            andthen (lift (py_int (py_or e1 (JInt 0)))) (\<lambda>v.
            andthen (publish ''SelfCons/selfconstoday'' (Js (JInt v))) (\<lambda>_.
            andthen (\<lambda>s. (if last_yield_day s > 0
                           then day_ratio (py_or e1 (JInt 0)) (last_yield_day s)
                           else Inr (Js (JInt 0)), s)) (\<lambda>dayratio.
            andthen (publish ''SelfCons/selfconsratiotoday'' dayratio) (\<lambda>_.
            andthen (\<lambda>s. (Inr (), s\<lparr>last_selfcons_yesterday_fallback := py_or e1 (JInt 0),
                                     last_selfcons_ratio_yesterday_fallback := dayratio\<rparr>))
              (\<lambda>_. battery_today_part entry_today n))))))
          else ret ())))"

text \<open>The branch for yesterday's row, with the fallback when there is none.\<close>

definition selfcons_fallback :: "unit run" where
  "selfcons_fallback = (\<lambda>s.
     andthen (lift (py_int (last_selfcons_yesterday_fallback s))) (\<lambda>v.
     andthen (publish ''SelfCons/selfconsyesterday'' (Js (JInt v))) (\<lambda>_.
     publish ''SelfCons/selfconsratioyesterday''
       (last_selfcons_ratio_yesterday_fallback s))) s)"

definition selfcons_yesterday_part :: "json \<Rightarrow> nat option \<Rightarrow> unit run" where
  "selfcons_yesterday_part data_selfcons yesterday_index =
     (case yesterday_index of
        None \<Rightarrow> selfcons_fallback
      | Some i \<Rightarrow>
          andthen (lift (py_index data_selfcons (int i))) (\<lambda>entry_yesterday.
          andthen (lift (py_len entry_yesterday)) (\<lambda>n.
          if n > 1 then
            andthen (lift (py_index entry_yesterday 1)) (\<lambda>e1.
            andthen (lift (py_int (py_or e1 (JInt 0)))) (\<lambda>v.
            andthen (publish ''SelfCons/selfconsyesterday'' (Js (JInt v))) (\<lambda>_.
            andthen (\<lambda>s. (if last_yield_yesterday s > 0
                           then day_ratio (py_or e1 (JInt 0)) (last_yield_yesterday s)
                           else Inr (Js (JInt 0)), s)) (\<lambda>dayratio_y.
            publish ''SelfCons/selfconsratioyesterday'' dayratio_y))))
          else selfcons_fallback)))"

definition process_self_consumption :: "string \<Rightarrow> string \<Rightarrow> json \<Rightarrow> unit run" where
  "process_self_consumption today yesterday data_selfcons =
     try_except
       (andthen (lift (py_len data_selfcons)) (\<lambda>n.
        andthen (lift (scan_dates today yesterday data_selfcons
                         [0..<min DAYS_TO_CHECK_HISTORY n] (None, None))) (\<lambda>found.
        andthen (selfcons_today_part data_selfcons (fst found)) (\<lambda>_.
        selfcons_yesterday_part data_selfcons (snd found)))))
       Exception (ret ())"

text \<open>The local helper \<^verbatim>\<open>jget\<close> of \<^verbatim>\<open>process_periodic_poll\<close>.\<close>

fun jget :: "json \<Rightarrow> nat \<Rightarrow> json \<Rightarrow> json" where
  "jget (JObj kvs) k d = dict_get kvs (str_of_nat k) d"
| "jget (JList xs) k d = (if k < length xs then xs ! k else d)"
| "jget v k d = d"

text \<open>The block of \<^verbatim>\<open>process_periodic_poll\<close> that decodes the summary 801/170.\<close>

definition periodic_summary :: "json \<Rightarrow> unit run" where
  "periodic_summary json_data =
     andthen (lift (py_int (jget json_data 101 (JInt 0)))) (\<lambda>pac_val.
     andthen (lift (py_int (jget json_data 102 (JInt 0)))) (\<lambda>pdc_val.
     andthen (lift (py_int (jget json_data 103 (JInt 0)))) (\<lambda>uac_val.
     andthen (lift (py_int (jget json_data 104 (JInt 0)))) (\<lambda>udc_val.
     run_all
       [if pac_val > 0 then publish ''status/pac'' (Js (JInt pac_val)) else ret (),
        if pdc_val > 0 then publish ''status/pdc'' (Js (JInt pdc_val)) else ret (),
        if uac_val > 0 then publish ''status/uac'' (Js (JInt uac_val)) else ret (),
        if udc_val > 0 then publish ''status/udc'' (Js (JInt udc_val)) else ret (),
        andthen (lift (py_int (jget json_data 110 (JInt 0)))) (\<lambda>v.
          publish ''status/conspac'' (Js (JInt v))),
        andthen (lift (py_int (jget json_data 105 (JInt 0)))) (\<lambda>v s.
          (Inr (), s\<lparr>last_yield_day := v\<rparr>)),
        andthen (lift (py_int (jget json_data 106 (JInt 0)))) (\<lambda>v s.
          (Inr (), s\<lparr>last_yield_yesterday := v\<rparr>)),
        (\<lambda>s. publish ''status/yieldday'' (Js (JInt (last_yield_day s))) s),
        (\<lambda>s. publish ''status/yieldyesterday'' (Js (JInt (last_yield_yesterday s))) s),
        andthen (lift (py_int (jget json_data 107 (JInt 0)))) (\<lambda>v.
          publish ''status/yieldmonth'' (Js (JInt v))),
        andthen (lift (py_int (jget json_data 108 (JInt 0)))) (\<lambda>v.
          publish ''status/yieldyear'' (Js (JInt v))),
        andthen (lift (py_int (jget json_data 109 (JInt 0)))) (\<lambda>v.
          publish ''status/yieldtotal'' (Js (JInt v))),
        andthen (lift (py_int (jget json_data 111 (JInt 0)))) (\<lambda>v.
          publish ''status/consyieldday'' (Js (JInt v))),
        andthen (lift (py_int (jget json_data 112 (JInt 0)))) (\<lambda>v.
          publish ''status/consyieldyesterday'' (Js (JInt v))),
        andthen (lift (py_int (jget json_data 113 (JInt 0)))) (\<lambda>v.
          publish ''status/consyieldmonth'' (Js (JInt v))),
        andthen (lift (py_int (jget json_data 114 (JInt 0)))) (\<lambda>v.
          publish ''status/consyieldyear'' (Js (JInt v))),
        andthen (lift (py_int (jget json_data 115 (JInt 0)))) (\<lambda>v.
          publish ''status/consyieldtotal'' (Js (JInt v))),
        publish ''info/lastSync'' (Js (JStr (py_str (jget json_data 100 (JStr []))))),
        (\<lambda>s. (Inr (),
               s\<lparr>total_power_w :=
                   (case py_int (jget json_data 116 (JInt 0)) of
                      Inr v \<Rightarrow> v | Inl e \<Rightarrow> 0)\<rparr>))]))))"

text \<open>
  \<^verbatim>\<open>if key in data and "0" in data[key]\<close> (and a further condition), then decode
  \<^verbatim>\<open>data[key]["0"]\<close>.
\<close>

definition with_block_0 ::
  "(string \<times> json) list \<Rightarrow> string \<Rightarrow> (dp \<Rightarrow> bool) \<Rightarrow> (json \<Rightarrow> unit run) \<Rightarrow> unit run" where
  "with_block_0 data key cond decode = (\<lambda>s.
     (case map_of data key of
        None \<Rightarrow> (Inr (), s)
      | Some block \<Rightarrow>
          andthen (lift (py_in ''0'' block)) (\<lambda>present.
            if present \<and> cond s
            then andthen (lift (py_key block ''0'')) decode
            else ret ()) s))"

definition process_periodic_poll :: "string \<Rightarrow> string \<Rightarrow> json \<Rightarrow> unit run" where
  "process_periodic_poll today yesterday data =
     (case data of
        JObj kvs \<Rightarrow>
          run_all
            [with_block_0 kvs ''777'' (\<lambda>s. inverter_names s \<noteq> [])
               (process_inverter_day_sums today),
             with_block_0 kvs ''778'' (\<lambda>s. True)
               (process_self_consumption today yesterday),
             (case dict_get kvs ''801'' JNull of
                JObj block_801 \<Rightarrow>
                  (let json_data = dict_get block_801 ''170'' JNull
                   in if json_data \<noteq> JNull then periodic_summary json_data else ret ())
              | _ \<Rightarrow> ret ())]
      | _ \<Rightarrow> lift (Inl AttributeError))"

subsection \<open>Historic data\<close>

text \<open>
  \<^verbatim>\<open>round(((selfcons * 1000) / cons) * 1000) / 10\<close>, a float.  Repeating a string or a
  list a thousand times succeeds in Python and the division then raises the same
  \<^verbatim>\<open>TypeError\<close>.
\<close>

definition period_ratio :: "json \<Rightarrow> json \<Rightarrow> exc + pyval" where
  "period_ratio selfcons cons =
     (case as_num selfcons of
        Inl e \<Rightarrow> Inl e
      | Inr x \<Rightarrow>
          (case as_num cons of
             Inl e \<Rightarrow> Inl e
           | Inr c \<Rightarrow>
               (case int_truediv (x * 1000) c of
                  Inl e \<Rightarrow> Inl e
                | Inr q \<Rightarrow>
                    (case round_float (float_mul q 1000) of
                       Inl e \<Rightarrow> Inl e
                     | Inr n \<Rightarrow> map_sum id Fl (int_truediv n 10)))))"

text \<open>\<^verbatim>\<open>cons > 0\<close>.\<close>

definition py_positive :: "json \<Rightarrow> exc + bool" where
  "py_positive v = (case as_num v of Inl e \<Rightarrow> Inl e | Inr x \<Rightarrow> Inr (x > 0))"

text \<open>
  The value and ratio of one period row, \<^verbatim>\<open>if len(row) >= 4: ...\<close>.  The source
  repeats this block eight times, for the current and the previous month and year of
  877, 878, \<^verbatim>\<open>/months.json\<close> and \<^verbatim>\<open>/years.json\<close>, with different topics.
\<close>

definition period_pubs :: "string \<Rightarrow> string \<Rightarrow> json \<Rightarrow> unit run" where
  "period_pubs topic ratio_topic row =
     andthen (lift (py_len row)) (\<lambda>n.
     if n \<ge> 4 then
       andthen (lift (py_index row 3)) (\<lambda>r3.
       andthen (lift (py_int r3)) (\<lambda>v.
       andthen (publish topic (Js (JInt v))) (\<lambda>_.
       andthen (lift (py_index row 2)) (\<lambda>r2.
       andthen (lift (py_positive (py_or r2 (JInt 0)))) (\<lambda>pos.
       if pos then
         andthen (lift (period_ratio r3 (py_or r2 (JInt 0)))) (\<lambda>ratio.
           publish ratio_topic ratio)
       else ret ())))))
     else ret ())"

text \<open>The per-inverter yearly yields of one row of 854.\<close>

definition year_inv_entry :: "json \<Rightarrow> unit run" where
  "year_inv_entry entry =
     andthen (lift (py_len entry)) (\<lambda>n.
     if n \<ge> 2 then
       andthen (lift (py_index entry 1)) (\<lambda>inverter_data.
       if truthy inverter_data then
         andthen (lift (py_index entry 0)) (\<lambda>e0.
         andthen (lift (last_two e0)) (\<lambda>year s.
         for_each (zip [0..<length (inverter_names s)] (inverter_names s)) (\<lambda>(inu, name).
           andthen (lift (py_len inverter_data)) (\<lambda>m.
           if inu < m then
             andthen (lift (py_index inverter_data (int inu))) (\<lambda>v.
             if truthy v then
               publish (''Historic/20'' @ py_str year @ ''/yieldyearINV/'' @ py_str name)
                 (Js v)
             else ret ())
           else ret ())) s))
       else ret ())
     else ret ())"

text \<open>The three values of a month row under its year and month.\<close>

definition month_series_pubs :: "json \<Rightarrow> json \<Rightarrow> json \<Rightarrow> json \<Rightarrow> unit run" where
  "month_series_pubs entry year month e1 =
     andthen (publish (''Historic/20'' @ py_str year @ ''/monthly/'' @ py_str month
                         @ ''/yieldmonth'') (Js e1)) (\<lambda>_.
     andthen (lift (py_index entry 2)) (\<lambda>e2.
     andthen (publish (''Historic/20'' @ py_str year @ ''/monthly/'' @ py_str month
                         @ ''/consmonth'') (Js e2)) (\<lambda>_.
     andthen (lift (py_index entry 3)) (\<lambda>e3.
     publish (''Historic/20'' @ py_str year @ ''/monthly/'' @ py_str month
                @ ''/selfconsmonth'') (Js e3)))))"

definition year_series_pubs :: "json \<Rightarrow> json \<Rightarrow> json \<Rightarrow> unit run" where
  "year_series_pubs entry year e1 =
     andthen (publish (''Historic/20'' @ py_str year @ ''/yieldyear'') (Js e1)) (\<lambda>_.
     andthen (lift (py_index entry 2)) (\<lambda>e2.
     andthen (publish (''Historic/20'' @ py_str year @ ''/consyear'') (Js e2)) (\<lambda>_.
     andthen (lift (py_index entry 3)) (\<lambda>e3.
     publish (''Historic/20'' @ py_str year @ ''/selfconsyear'') (Js e3)))))"

text \<open>One row of 877 in the series loop: \<^verbatim>\<open>if len(entry) >= 4 and entry[1]\<close>.\<close>

definition month_entry_877 :: "json \<Rightarrow> unit run" where
  "month_entry_877 entry =
     andthen (lift (py_len entry)) (\<lambda>n.
     if n \<ge> 4 then
       andthen (lift (py_index entry 1)) (\<lambda>e1.
       if truthy e1 then
         andthen (lift (py_index entry 0)) (\<lambda>date_str.
         andthen (lift (last_two date_str)) (\<lambda>year.
         andthen (lift (slice_3_5 date_str)) (\<lambda>month.
         month_series_pubs entry year month e1)))
       else ret ())
     else ret ())"

definition year_entry_878 :: "json \<Rightarrow> unit run" where
  "year_entry_878 entry =
     andthen (lift (py_len entry)) (\<lambda>n.
     if n \<ge> 4 then
       andthen (lift (py_index entry 1)) (\<lambda>e1.
       if truthy e1 then
         andthen (lift (py_index entry 0)) (\<lambda>e0.
         andthen (lift (last_two e0)) (\<lambda>year.
         year_series_pubs entry year e1))
       else ret ())
     else ret ())"

text \<open>
  The current and previous period of 877 and 878: the last and the second-to-last
  row.
\<close>

definition last_rows_pubs ::
  "string \<Rightarrow> string \<Rightarrow> string \<Rightarrow> string \<Rightarrow> json \<Rightarrow> unit run" where
  "last_rows_pubs topic ratio_topic last_topic last_ratio_topic rows =
     andthen (lift (py_len rows)) (\<lambda>n.
     if n \<ge> 2 then
       andthen (lift (py_index rows (- 1))) (\<lambda>current.
       andthen (period_pubs topic ratio_topic current) (\<lambda>_.
       andthen (lift (py_index rows (- 2))) (\<lambda>previous.
       period_pubs last_topic last_ratio_topic previous)))
     else ret ())"

definition process_historic_response :: "json \<Rightarrow> unit run" where
  "process_historic_response data =
     try_except
       (case data of
          JObj kvs \<Rightarrow>
            run_all
              [(case map_of kvs ''854'' of
                  None \<Rightarrow> ret ()
                | Some data_year \<Rightarrow>
                    andthen (lift (py_len data_year)) (\<lambda>_.
                    andthen (lift (py_iter data_year)) (\<lambda>entries.
                    for_each entries year_inv_entry))),
               (case map_of kvs ''877'' of
                  None \<Rightarrow> ret ()
                | Some data_month_tot \<Rightarrow>
                    andthen (last_rows_pubs ''SelfCons/selfconsmonth''
                               ''SelfCons/selfconsratiomonth'' ''SelfCons/selfconslastmonth''
                               ''SelfCons/selfconsratiolastmonth'' data_month_tot) (\<lambda>_.
                    andthen (lift (py_iter data_month_tot)) (\<lambda>entries.
                    for_each entries month_entry_877))),
               (case map_of kvs ''878'' of
                  None \<Rightarrow> ret ()
                | Some data_year_tot \<Rightarrow>
                    andthen (last_rows_pubs ''SelfCons/selfconsyear''
                               ''SelfCons/selfconsratioyear'' ''SelfCons/selfconslastyear''
                               ''SelfCons/selfconsratiolastyear'' data_year_tot) (\<lambda>_.
                    andthen (lift (py_iter data_year_tot)) (\<lambda>entries.
                    for_each entries year_entry_878)))]
        | _ \<Rightarrow> lift (Inl AttributeError))
       Exception (ret ())"






section \<open>Predicates of the statements\<close>

text \<open>A transport that always answers: no exchange raises.\<close>

definition responds :: "transport \<Rightarrow> bool" where
  "responds net = (\<forall>h. net h \<noteq> ClientError \<and> net h \<noteq> TimeoutError)"

text \<open>
  The float \<^verbatim>\<open>round((a / b) * 1000) / 10\<close> written out step by step (the quotient rounded
  to a float, its product with 1000 rounded to a float, the nearest integer, and that
  integer divided by 10 rounded to a float), and the condition that neither the
  quotient nor the product is too large for a float.
\<close>

abbreviation ratio_float :: "int \<Rightarrow> int \<Rightarrow> rat" where
  "ratio_float a b \<equiv>
     float_of (of_int (py_round (float_of (float_of (of_int a / of_int b) * 1000))) / 10)"

abbreviation ratio_in_range :: "int \<Rightarrow> int \<Rightarrow> bool" where
  "ratio_in_range a b \<equiv>
     finite_float (of_int a / of_int b) \<and> finite_float (float_of (of_int a / of_int b) * 1000)"

text \<open>A statement that leaves the publication log as it was, up to what it adds at the end.\<close>

definition appends :: "'a run \<Rightarrow> bool" where
  "appends m = (\<forall>s. \<exists>rest. published (snd (m s)) = published s @ rest)"


text \<open>A list row whose first field, as a string, contains the date.\<close>

definition row_has_date :: "string \<Rightarrow> json \<Rightarrow> bool" where
  "row_has_date t r = (case r of JList (d # xs) \<Rightarrow> str_contains t (py_str d) | _ \<Rightarrow> False)"

text \<open>A statement that leaves a field of the state as it was.\<close>

definition preserves :: "(dp \<Rightarrow> 'b) \<Rightarrow> 'a run \<Rightarrow> bool" where
  "preserves f m = (\<forall>s. f (snd (m s)) = f s)"

text \<open>
  The brand lookup of a device raises: this happens after the iteration has recorded the
  device type, and the handler then appends a second type entry.
\<close>

definition brand_lookup_raises :: "json \<Rightarrow> json \<Rightarrow> json \<Rightarrow> bool" where
  "brand_lookup_raises dlist blist info_code =
     (case get_from_indexed dlist (int_or_self info_code) of
        Inl e \<Rightarrow> False
      | Inr device_info \<Rightarrow>
          truthy device_info
          \<and> (case get_from_indexed blist (int_or_self (brand_idx_of device_info)) of
               Inl e \<Rightarrow> True
             | Inr b \<Rightarrow> False))"

text \<open>
  Type, brand and class that one iteration of the classification loop appends for a
  device whose brand lookup does not raise.
\<close>

definition lone_entry :: "json \<Rightarrow> json \<Rightarrow> json \<Rightarrow> json \<times> json \<times> string" where
  "lone_entry dlist blist info_code =
     (case get_from_indexed dlist (int_or_self info_code) of
        Inl e \<Rightarrow> (JStr ''Unknown'', JStr ''Unknown'', ''Wechselrichter'')
      | Inr device_info \<Rightarrow>
          if truthy device_info then
            (device_type_of device_info,
             (case get_from_indexed blist (int_or_self (brand_idx_of device_info)) of
                Inl e \<Rightarrow> JStr ''Unknown''
              | Inr b \<Rightarrow> if b = JNull then JStr ''Unknown'' else b),
             device_class_of (dclass_of device_info))
          else (JStr ''Unknown'', JStr ''Unknown'', ''Wechselrichter''))"

text \<open>The device at index \<open>j\<close> classified on its own.\<close>

definition classified_alone :: "dp \<Rightarrow> nat \<Rightarrow> dp" where
  "classified_alone s j =
     classify_devices (s\<lparr>inverter_names := [inverter_names s ! j],
                         device_infos := [device_infos s ! j]\<rparr>)"

text \<open>
  An example site: three devices with info codes 5, 7 and 9.  The table knows code 5
  (class bitmask 3, not a power of two) and code 9 (bitmask 16, the battery class) and
  has no entry for code 7.
\<close>

definition example_site :: dp where
  "example_site =
     init_dp\<lparr>inverter_names := [JStr ''A'', JStr ''B'', JStr ''C''],
            device_infos := [JInt 5, JInt 7, JInt 9],
            device_list :=
              JObj [(''5'', JList [JInt 1, JStr ''TypeX'', JInt 0, JInt 0, JInt 0, JInt 3]),
                    (''9'', JList [JInt 2, JStr ''Batt'', JInt 0, JInt 0, JInt 0, JInt 16])],
            brand_list := JObj [(''1'', JStr ''BrandY''), (''2'', JStr ''BrandZ'')]\<rparr>"

text \<open>A statement that only appends publications satisfying a predicate.\<close>

definition publishes_only :: "(string \<times> pyval \<Rightarrow> bool) \<Rightarrow> 'a run \<Rightarrow> bool" where
  "publishes_only P m =
     (\<forall>s. \<exists>rest. published (snd (m s)) = published s @ rest \<and> list_all P rest)"

text \<open>A publication that is not a zero instantaneous power or voltage of the summary.\<close>

definition no_zero_power :: "string \<times> pyval \<Rightarrow> bool" where
  "no_zero_power tv =
     (fst tv \<in> {''status/pac'', ''status/pdc'', ''status/uac'', ''status/udc''}
      \<longrightarrow> snd tv \<noteq> Js (JInt 0))"

section \<open>Properties of the HTTP client\<close>

lemma login_request_counter:
  "request_counter (snd (login net c)) = request_counter c"
  by (auto simp: login_def exchange_def Let_def split: http_outcome.splits option.splits)

lemma check_login_status_request_counter:
  "request_counter (snd (check_login_status net c)) = request_counter c"
  by (auto simp: check_login_status_def exchange_def Let_def login_request_counter
      split: http_outcome.splits)

lemma make_request_counter:
  "request_counter (snd (make_request loads net rd c)) =
     (if \<not> session_open c then request_counter c
      else (case net (sent c @ [if str_contains ''.json'' rd then JsonGet rd else GetjpPost rd]) of
              Response st ck body \<Rightarrow>
                if \<not> str_contains ''.json'' rd \<and> st = 200 \<and> loads body \<noteq> None then 0
                else request_counter c
            | _ \<Rightarrow> request_counter c + 1))"
  by (auto simp: make_request_def exchange_def Let_def split: http_outcome.splits option.splits)

lemma make_request_le:
  "responds net \<Longrightarrow> request_counter (snd (make_request loads net rd c)) \<le> request_counter c"
  unfolding make_request_counter responds_def
  by (auto split: http_outcome.splits)

lemma auth_check_le:
  assumes r: "responds net"
  shows "request_counter (snd (request_with_auth_check loads net rd c)) \<le> request_counter c"
proof -
  obtain ok c1 where cl: "check_login_status net c = (ok, c1)"
    by (cases "check_login_status net c")
  then have "request_counter c1 = request_counter c"
    using check_login_status_request_counter [of net c] by simp
  with cl make_request_le [OF r, of loads rd c1] make_request_le [OF r, of loads rd c]
  show ?thesis by (simp add: request_with_auth_check_def)
qed

lemma retry_loop_le:
  "responds net \<Longrightarrow>
   request_counter (snd (retry_loop loads net rd attempts i left delay c)) \<le> request_counter c"
proof (induction left arbitrary: i delay c)
  case 0
  then show ?case by simp
next
  case (Suc left)
  obtain result c1 where a: "request_with_auth_check loads net rd c = (result, c1)"
    by (cases "request_with_auth_check loads net rd c")
  then have le1: "request_counter c1 \<le> request_counter c"
    using auth_check_le [OF Suc.prems, of loads rd c] by simp
  have "request_counter (snd (retry_loop loads net rd attempts (i + 1) left (min (delay * 2) 30)
          (c1\<lparr>slept := slept c1 @ [delay]\<rparr>))) \<le> request_counter c1"
    using Suc.IH [OF Suc.prems, of "i + 1" "min (delay * 2) 30" "c1\<lparr>slept := slept c1 @ [delay]\<rparr>"]
    by simp
  moreover have "request_counter (snd (retry_loop loads net rd attempts (i + 1) left delay c1))
      \<le> request_counter c1"
    using Suc.IH [OF Suc.prems] .
  ultimately show ?case using a le1 by simp
qed

lemma https_request_le:
  "responds net \<Longrightarrow>
   request_counter (snd (https_request loads net rd c)) \<le> request_counter c"
  using retry_loop_le [of net loads rd 3 1 "max 1 3" 1 c]
  by (auto simp add: https_request_def request_with_retry_def split: prod.splits)

lemma https_request_no_restart:
  assumes "responds net" and "request_counter c \<le> MAX_REQUEST_FAILURES"
  shows "fst (https_request loads net rd c) \<noteq> RestartBridge"
  using retry_loop_le [OF assms(1), of loads rd 3 1 "max 1 3" 1 c] assms(2)
  by (auto simp add: https_request_def request_with_retry_def split: prod.splits)

text \<open>
  C9.  \<^verbatim>\<open>make_request\<close> adds one to the request-failure counter exactly when the
  session is open and the transport raises (client error or timeout).  When the
  transport answers, the counter becomes 0 for a \<^verbatim>\<open>/getjp\<close> request answered with
  status 200 and a body that decodes, and stays as it was in every other case: a
  non-200 status, a body that fails to decode, and any static \<^verbatim>\<open>.json\<close> fetch.
  Login and the login check never touch it.  So on a transport that always answers a
  counter at or below the threshold stays there, and \<^verbatim>\<open>https_request\<close> does not start
  the restart.
\<close>

theorem request_counter_policy:
  "(request_counter (snd (make_request loads net rd c)) = request_counter c + 1 \<longleftrightarrow>
       session_open c \<and>
       (net (sent c @ [if str_contains ''.json'' rd then JsonGet rd else GetjpPost rd])
          \<in> {ClientError, TimeoutError}))
   \<and> (net (sent c @ [if str_contains ''.json'' rd then JsonGet rd else GetjpPost rd])
          = Response st ck body \<longrightarrow>
       request_counter (snd (make_request loads net rd c)) =
         (if session_open c \<and> \<not> str_contains ''.json'' rd \<and> st = 200 \<and> loads body \<noteq> None
          then 0 else request_counter c))
   \<and> request_counter (snd (login net c)) = request_counter c
   \<and> request_counter (snd (check_login_status net c)) = request_counter c
   \<and> (responds net \<and> request_counter c \<le> MAX_REQUEST_FAILURES \<longrightarrow>
       fst (https_request loads net rd c) \<noteq> RestartBridge
       \<and> request_counter (snd (https_request loads net rd c)) \<le> MAX_REQUEST_FAILURES)"
proof (intro conjI impI)
  show "request_counter (snd (make_request loads net rd c)) = request_counter c + 1 \<longleftrightarrow>
       session_open c \<and>
       (net (sent c @ [if str_contains ''.json'' rd then JsonGet rd else GetjpPost rd])
          \<in> {ClientError, TimeoutError})"
    unfolding make_request_counter by (auto split: http_outcome.splits)
next
  assume "net (sent c @ [if str_contains ''.json'' rd then JsonGet rd else GetjpPost rd])
          = Response st ck body"
  then show "request_counter (snd (make_request loads net rd c)) =
         (if session_open c \<and> \<not> str_contains ''.json'' rd \<and> st = 200 \<and> loads body \<noteq> None
          then 0 else request_counter c)"
    unfolding make_request_counter by auto
next
  show "request_counter (snd (login net c)) = request_counter c"
    by (rule login_request_counter)
next
  show "request_counter (snd (check_login_status net c)) = request_counter c"
    by (rule check_login_status_request_counter)
next
  assume a: "responds net \<and> request_counter c \<le> MAX_REQUEST_FAILURES"
  then show "fst (https_request loads net rd c) \<noteq> RestartBridge"
    using https_request_no_restart by blast
  from a show "request_counter (snd (https_request loads net rd c)) \<le> MAX_REQUEST_FAILURES"
    using https_request_le [of net loads rd c] by simp
qed

theorem request_counter_policy_witness:
  "(\<lambda>h. Response 200 [] ''{}'') ([] @ [GetjpPost ''fast'']) = Response 200 [] ''{}''
   \<and> responds (\<lambda>h. Response 200 [] ''{}'')
   \<and> request_counter ((new_client False)\<lparr>request_counter := 3\<rparr>) \<le> MAX_REQUEST_FAILURES
   \<and> request_counter (snd (make_request (\<lambda>b. Some (JObj [])) (\<lambda>h. Response 200 [] ''{}'')
         ''fast'' ((new_client False)\<lparr>request_counter := 3\<rparr>))) = 0
   \<and> fst (https_request (\<lambda>b. Some (JObj [])) (\<lambda>h. Response 200 [] ''{}'') ''fast''
         ((new_client False)\<lparr>request_counter := 3\<rparr>)) \<noteq> RestartBridge"
  using request_counter_policy [of "\<lambda>b. Some (JObj [])" "\<lambda>h. Response 200 [] ''{}''" "''fast''"
      "(new_client False)\<lparr>request_counter := 3\<rparr>" 200 "[]" "''{}''"]
  by (simp add: responds_def new_client_def MAX_REQUEST_FAILURES_def str_contains_def)

lemma login_without_credentials:
  "\<not> user_pass c \<Longrightarrow> login net c = (True, c)"
  by (simp add: login_def)

lemma login_failure_counted:
  assumes "user_pass c" and "session_open c"
    and "net (sent c @ [LoginPost]) = ClientError \<or> net (sent c @ [LoginPost]) = TimeoutError
         \<or> (\<exists>st ck b. net (sent c @ [LoginPost]) = Response st ck b \<and> st \<noteq> 200)"
  shows "fst (login net c) = False
         \<and> login_failures (snd (login net c)) = login_failures c + 1"
  using assms by (auto simp: login_def exchange_def Let_def)

lemma login_success_resets:
  assumes "user_pass c" and "session_open c"
    and "net (sent c @ [LoginPost]) = Response 200 ck b" and "extract_token ck = Some tok"
  shows "fst (login net c) = True \<and> login_failures (snd (login net c)) = 0
         \<and> data_token (snd (login net c)) = tok"
  using assms by (auto simp: login_def exchange_def Let_def)

text \<open>
  C8.  With credentials configured, a login answered with status 200 and a cookie
  header without \<^verbatim>\<open>SolarLog=\<close> returns \<^verbatim>\<open>False\<close> and leaves the login-failure counter
  at its old value 1: this failure is not counted.
\<close>

theorem login_missing_token_not_counted:
  "fst (login (\<lambda>h. Response 200 ''banner_hidden=false'' [])
          ((new_client True)\<lparr>login_failures := 1\<rparr>)) = False
   \<and> login_failures (snd (login (\<lambda>h. Response 200 ''banner_hidden=false'' [])
          ((new_client True)\<lparr>login_failures := 1\<rparr>))) = 1"
  by (simp add: login_def new_client_def exchange_def extract_token_def)

theorem login_missing_token_not_counted_witness:
  "user_pass ((new_client True)\<lparr>login_failures := 1\<rparr>)
   \<and> session_open ((new_client True)\<lparr>login_failures := 1\<rparr>)
   \<and> extract_token ''banner_hidden=false'' = None
   \<and> fst (login (\<lambda>h. Response 200 ''banner_hidden=false'' [])
          ((new_client True)\<lparr>login_failures := 1\<rparr>)) = False
   \<and> login_failures (snd (login (\<lambda>h. Response 200 ''banner_hidden=false'' [])
          ((new_client True)\<lparr>login_failures := 1\<rparr>))) = 1"
  using login_missing_token_not_counted
  by (simp add: new_client_def extract_token_def)

section \<open>Laws of the effect combinators\<close>

named_theorems run_simps

lemma ret_apply [run_simps]: "ret x s = (Inr x, s)"
  by (simp add: ret_def)

lemma lift_apply [run_simps]: "lift r s = (r, s)"
  by (simp add: lift_def)

lemma publish_apply [run_simps]:
  "publish topic v s = (Inr (), s\<lparr>published := published s @ [(topic, v)]\<rparr>)"
  by (simp add: publish_def)

lemma andthen_ret [run_simps]: "andthen (ret x) f s = f x s"
  by (simp add: andthen_def ret_def)

lemma andthen_lift_Inr [run_simps]: "andthen (lift (Inr x)) f = f x"
  by (simp add: andthen_def lift_def)

lemma andthen_lift_Inl [run_simps]: "andthen (lift (Inl e)) f = lift (Inl e)"
  by (simp add: andthen_def lift_def)

lemma andthen_assoc [run_simps]:
  "andthen (andthen m f) g = andthen m (\<lambda>x. andthen (f x) g)"
  by (auto simp: andthen_def fun_eq_iff split: sum.splits prod.splits)

lemma andthen_assign [run_simps]:
  "andthen (\<lambda>s. (Inr x, g s)) f s0 = f x (g s0)"
  by (simp add: andthen_def)

lemma andthen_publish_state [run_simps]:
  "andthen (\<lambda>s. publish topic (v s) s) f s0 =
     f () (s0\<lparr>published := published s0 @ [(topic, v s0)]\<rparr>)"
  by (simp add: andthen_def publish_def)

lemma andthen_publish [run_simps]:
  "andthen (publish topic v) f s = f () (s\<lparr>published := published s @ [(topic, v)]\<rparr>)"
  by (simp add: andthen_def publish_def)

lemma andthen_Inr: "m s = (Inr x, s') \<Longrightarrow> andthen m f s = f x s'"
  by (simp add: andthen_def)

lemma andthen_Inl: "m s = (Inl e, s') \<Longrightarrow> andthen m f s = (Inl e, s')"
  by (simp add: andthen_def)

lemma try_except_Inr: "m s = (Inr x, s') \<Longrightarrow> try_except m c h s = (Inr x, s')"
  by (simp add: try_except_def)

lemma try_except_Inl:
  "m s = (Inl e, s') \<Longrightarrow> try_except m c h s = (if c e then h s' else (Inl e, s'))"
  by (simp add: try_except_def)

lemma for_each_append:
  "for_each xs f s = (Inr (), s') \<Longrightarrow> for_each (xs @ ys) f s = for_each ys f s'"
proof (induction xs arbitrary: s)
  case Nil
  then show ?case by (simp add: ret_def)
next
  case (Cons x xs)
  then show ?case
    by (cases "f x s") (auto simp: andthen_def split: sum.splits)
qed

section \<open>Statements only append to the publication log\<close>

lemma appendsI: "(\<And>s. \<exists>rest. published (snd (m s)) = published s @ rest) \<Longrightarrow> appends m"
  by (simp add: appends_def)

lemma appendsD: "appends m \<Longrightarrow> \<exists>rest. published (snd (m s)) = published s @ rest"
  by (simp add: appends_def)

lemma appends_ret [intro!, simp]: "appends (ret x)"
  by (simp add: appends_def ret_def)

lemma appends_lift [intro!, simp]: "appends (lift r)"
  by (simp add: appends_def lift_def)

lemma appends_publish [intro!, simp]: "appends (publish topic v)"
  by (simp add: appends_def publish_def)

lemma appends_andthen [intro!]:
  assumes "appends m" and "\<And>x. appends (f x)"
  shows "appends (andthen m f)"
proof (rule appendsI)
  fix s
  obtain r s1 where m: "m s = (r, s1)" by (cases "m s")
  from appendsD [OF assms(1), of s] m obtain r1 where r1: "published s1 = published s @ r1"
    by auto
  show "\<exists>rest. published (snd (andthen m f s)) = published s @ rest"
  proof (cases r)
    case (Inl e)
    with m r1 show ?thesis by (simp add: andthen_def)
  next
    case (Inr x)
    from appendsD [OF assms(2), of x s1] obtain r2 where
      "published (snd (f x s1)) = published s1 @ r2" by auto
    with m r1 Inr show ?thesis by (simp add: andthen_def)
  qed
qed

lemma appends_try_except [intro!]:
  assumes "appends m" and "appends h"
  shows "appends (try_except m c h)"
proof (rule appendsI)
  fix s
  obtain r s1 where m: "m s = (r, s1)" by (cases "m s")
  from appendsD [OF assms(1), of s] m obtain r1 where r1: "published s1 = published s @ r1"
    by auto
  from appendsD [OF assms(2), of s1] obtain r2 where
    r2: "published (snd (h s1)) = published s1 @ r2" by auto
  show "\<exists>rest. published (snd (try_except m c h s)) = published s @ rest"
    using m r1 r2 by (cases r) (auto simp: try_except_def)
qed

lemma appends_for_each [intro!]:
  assumes "\<And>x. appends (f x)"
  shows "appends (for_each xs f)"
  by (induction xs) (auto intro: assms)

lemma appends_run_all [intro!]:
  assumes "\<And>m. m \<in> set ms \<Longrightarrow> appends m"
  shows "appends (run_all ms)"
  using assms by (induction ms) auto

lemma appends_state:
  assumes "\<And>s0. appends (F s0)"
  shows "appends (\<lambda>s. F s s)"
  using assms by (simp add: appends_def)

lemma appends_if [intro!]:
  "(b \<Longrightarrow> appends m) \<Longrightarrow> (\<not> b \<Longrightarrow> appends n) \<Longrightarrow> appends (if b then m else n)"
  by simp

lemma appends_period_pubs [intro!, simp]: "appends (period_pubs t rt row)"
  unfolding period_pubs_def by (intro appends_andthen appends_if appends_lift appends_publish appends_ret)

lemma appends_month_series_pubs [intro!, simp]: "appends (month_series_pubs entry year month e1)"
  unfolding month_series_pubs_def by (intro appends_andthen appends_lift appends_publish)

lemma appends_year_series_pubs [intro!, simp]: "appends (year_series_pubs entry year e1)"
  unfolding year_series_pubs_def by (intro appends_andthen appends_lift appends_publish)

lemma appends_month_entry_877 [intro!, simp]: "appends (month_entry_877 entry)"
  unfolding month_entry_877_def
  by (intro appends_andthen appends_if appends_lift appends_ret appends_month_series_pubs)

lemma appends_year_entry_878 [intro!, simp]: "appends (year_entry_878 entry)"
  unfolding year_entry_878_def
  by (intro appends_andthen appends_if appends_lift appends_ret appends_year_series_pubs)

lemma appends_last_rows_pubs [intro!, simp]: "appends (last_rows_pubs a b c d rows)"
  unfolding last_rows_pubs_def
  by (intro appends_andthen appends_if appends_lift appends_ret appends_period_pubs)


section \<open>Float arithmetic\<close>

text \<open>The exponent brackets its argument between two powers of two.\<close>

lemma bit_length_upper: "n < 2 ^ bit_length n"
proof (induction n rule: bit_length.induct)
  case (1 n)
  show ?case
  proof (cases "n = 0")
    case True
    then show ?thesis by (simp add: bit_length.simps)
  next
    case False
    with 1 have "n div 2 < 2 ^ bit_length (n div 2)" by simp
    then have "n < 2 * 2 ^ bit_length (n div 2)" by linarith
    with False show ?thesis by (subst bit_length.simps) simp
  qed
qed

lemma bit_length_lower: "0 < n \<Longrightarrow> 2 ^ (bit_length n - 1) \<le> n"
proof (induction n rule: bit_length.induct)
  case (1 n)
  from 1(2) have n: "n \<noteq> 0" by simp
  have bl: "bit_length n = Suc (bit_length (n div 2))"
    using n by (subst bit_length.simps) simp
  show ?case
  proof (cases "n div 2 = 0")
    case True
    then have "bit_length (n div 2) = 0" by (simp add: bit_length.simps)
    with bl 1(2) show ?thesis by simp
  next
    case False
    then have pos: "0 < n div 2" by simp
    from 1(1) [OF n pos] have ih: "2 ^ (bit_length (n div 2) - 1) \<le> n div 2" .
    from False have "bit_length (n div 2) \<noteq> 0" by (subst bit_length.simps) simp
    then obtain k where k: "bit_length (n div 2) = Suc k" by (cases "bit_length (n div 2)") auto
    with ih have "2 ^ k \<le> n div 2" by simp
    then have "2 * 2 ^ k \<le> n" by linarith
    with bl k show ?thesis by simp
  qed
qed

lemma bit_length_pos: "0 < n \<Longrightarrow> 0 < bit_length n"
  by (subst bit_length.simps) simp

lemma exponent_lower:
  assumes "0 < x"
  shows "2 powi exponent x \<le> x"
proof (cases "1 \<le> x")
  case True
  let ?n = "nat \<lfloor>x\<rfloor>"
  from True have f: "1 \<le> \<lfloor>x\<rfloor>" by simp
  then have n: "0 < ?n" by simp
  from bit_length_pos [OF n] have e: "exponent x = int (bit_length ?n - 1)"
    using True by (simp add: exponent_def)
  from bit_length_lower [OF n] have "(2::int) ^ (bit_length ?n - 1) \<le> int ?n"
    by (metis of_nat_le_iff of_nat_numeral of_nat_power)
  then have "(2::int) ^ (bit_length ?n - 1) \<le> \<lfloor>x\<rfloor>" using f by simp
  then have "(2::rat) ^ (bit_length ?n - 1) \<le> of_int \<lfloor>x\<rfloor>"
    by (metis of_int_le_iff of_int_numeral of_int_power)
  also have "\<dots> \<le> x" by simp
  finally show ?thesis unfolding e by simp
next
  case False
  let ?c = "\<lceil>1 / x\<rceil>"
  let ?m = "nat (?c - 1)"
  let ?k = "bit_length ?m"
  from False assms have "1 < 1 / x" by simp
  then have c: "2 \<le> ?c" by (simp add: le_ceiling_iff) 
  from False have e: "exponent x = - int ?k" by (simp add: exponent_def)
  from bit_length_upper [of ?m] have "int ?m < 2 ^ ?k"
    by (metis of_nat_less_iff of_nat_numeral of_nat_power)
  moreover have "int ?m = ?c - 1"
  proof -
    from c have "0 \<le> ?c - 1" by linarith
    then show ?thesis by (simp only: int_nat_eq if_True)
  qed
  ultimately have "?c \<le> 2 ^ ?k" by linarith
  then have "(of_int ?c :: rat) \<le> 2 ^ ?k"
    by (metis of_int_le_iff of_int_numeral of_int_power)
  moreover have "1 / x \<le> of_int ?c" by simp
  ultimately have "1 / x \<le> 2 ^ ?k" by linarith
  with assms have "1 / 2 ^ ?k \<le> x"
    by (simp add: field_simps)
  then show ?thesis unfolding e by (simp add: power_int_minus_divide)
qed

lemma exponent_upper:
  assumes "0 < x"
  shows "x < 2 powi (exponent x + 1)"
proof (cases "1 \<le> x")
  case True
  let ?n = "nat \<lfloor>x\<rfloor>"
  from True have f: "1 \<le> \<lfloor>x\<rfloor>" by simp
  then have n: "0 < ?n" by simp
  from True have e: "exponent x + 1 = int (bit_length ?n)"
    by (simp add: exponent_def)
  from bit_length_upper [of ?n] have "int ?n < 2 ^ bit_length ?n"
    by (metis of_nat_less_iff of_nat_numeral of_nat_power)
  then have "\<lfloor>x\<rfloor> + 1 \<le> 2 ^ bit_length ?n" using f by simp
  then have "(of_int (\<lfloor>x\<rfloor> + 1) :: rat) \<le> 2 ^ bit_length ?n"
    by (metis of_int_le_iff of_int_numeral of_int_power)
  moreover have "x < of_int (\<lfloor>x\<rfloor> + 1)" by linarith
  ultimately show ?thesis unfolding e by simp
next
  case False
  let ?c = "\<lceil>1 / x\<rceil>"
  let ?m = "nat (?c - 1)"
  let ?k = "bit_length ?m"
  from False assms have "1 < 1 / x" by simp
  then have c: "2 \<le> ?c" by (simp add: le_ceiling_iff)
  then have m: "0 < ?m" by simp
  from False have e: "exponent x = - int ?k" by (simp add: exponent_def)
  from bit_length_pos [OF m] have e1: "exponent x + 1 = - int (?k - 1)"
    unfolding e by simp
  from bit_length_lower [OF m] have "(2::int) ^ (?k - 1) \<le> int ?m"
    by (metis of_nat_le_iff of_nat_numeral of_nat_power)
  moreover have "int ?m = ?c - 1"
  proof -
    from c have "0 \<le> ?c - 1" by linarith
    then show ?thesis by (simp only: int_nat_eq if_True)
  qed
  ultimately have "(2::int) ^ (?k - 1) \<le> ?c - 1" by linarith
  then have "(2::rat) ^ (?k - 1) \<le> of_int (?c - 1)"
    by (metis of_int_le_iff of_int_numeral of_int_power)
  moreover have "of_int (?c - 1) < 1 / x" by linarith
  ultimately have "(2::rat) ^ (?k - 1) < 1 / x" by linarith
  with assms have "x < 1 / 2 ^ (?k - 1)"
    by (simp add: field_simps)
  then show ?thesis unfolding e1 by (simp add: power_int_minus_divide)
qed

lemma py_round_le: "x \<le> of_int N \<Longrightarrow> py_round x \<le> N"
proof -
  assume a: "x \<le> of_int N"
  then have f: "\<lfloor>x\<rfloor> \<le> N" by (simp add: floor_le_iff) 
  show ?thesis
  proof (cases "\<lfloor>x\<rfloor> = N")
    case True
    with a have "x = of_int \<lfloor>x\<rfloor>" by (metis of_int_floor_le order_antisym)
    then have "x - of_int \<lfloor>x\<rfloor> = 0" by simp
    then show ?thesis using True by (simp add: py_round_def Let_def)
  next
    case False
    with f have "\<lfloor>x\<rfloor> + 1 \<le> N" by simp
    then show ?thesis by (simp add: py_round_def Let_def)
  qed
qed

lemma py_round_ge: "of_int N \<le> x \<Longrightarrow> N \<le> py_round x"
proof -
  assume "of_int N \<le> x"
  then have "N \<le> \<lfloor>x\<rfloor>" by (simp add: le_floor_iff)
  then show ?thesis by (simp add: py_round_def Let_def)
qed

lemma py_round_abs_le: "\<bar>x\<bar> \<le> of_int N \<Longrightarrow> \<bar>py_round x\<bar> \<le> N"
proof -
  assume a: "\<bar>x\<bar> \<le> of_int N"
  then have "x \<le> of_int N" and "of_int (- N) \<le> x" by linarith+
  from py_round_le [OF this(1)] py_round_ge [OF this(2)] show ?thesis by linarith
qed

lemma float_of_abs_le:
  assumes x: "\<bar>x\<bar> \<le> 2 powi k" and k: "- 1074 \<le> k"
  shows "\<bar>float_of x\<bar> \<le> 2 powi k"
proof (cases "x = 0")
  case True
  then show ?thesis by (simp add: float_of_def)
next
  case False
  define e where "e = exponent \<bar>x\<bar>"
  define q where "q = max (e - 52) (- 1074)"
  from False have pos: "0 < \<bar>x\<bar>" by simp
  from exponent_lower [OF pos] x have "(2::rat) powi e \<le> 2 powi k" unfolding e_def by linarith
  then have "e \<le> k"
    using power_int_strict_increasing [of k e "2::rat"] by (cases "e \<le> k") auto
  with k have qk: "q \<le> k" unfolding q_def by simp
  have p: "(0::rat) < 2 powi q" by (simp add: zero_less_power_int)
  have split: "(2::rat) powi k = 2 powi (k - q) * 2 powi q"
    by (simp flip: power_int_add)
  have int: "(2::rat) powi (k - q) = of_int (2 ^ nat (k - q))"
    using qk by (simp add: power_int_def)
  have "\<bar>x / 2 powi q\<bar> = \<bar>x\<bar> / 2 powi q" using p by simp
  also have "\<dots> \<le> 2 powi k / 2 powi q" using x p by (simp add: divide_right_mono)
  also have "\<dots> = 2 powi (k - q)" using p split by simp
  finally have "\<bar>x / 2 powi q\<bar> \<le> of_int (2 ^ nat (k - q))" using int by simp
  from py_round_abs_le [OF this] have "\<bar>py_round (x / 2 powi q)\<bar> \<le> 2 ^ nat (k - q)" .
  then have "(of_int \<bar>py_round (x / 2 powi q)\<bar> :: rat) \<le> of_int (2 ^ nat (k - q))"
    by (simp only: of_int_le_iff)
  then have "\<bar>of_int (py_round (x / 2 powi q)) :: rat\<bar> \<le> 2 powi (k - q)"
    using int by simp
  then have "\<bar>of_int (py_round (x / 2 powi q)) :: rat\<bar> * 2 powi q \<le> 2 powi (k - q) * 2 powi q"
    using p by (simp add: mult_right_mono)
  then have "\<bar>of_int (py_round (x / 2 powi q)) * 2 powi q :: rat\<bar> \<le> 2 powi k"
    using p split by (simp add: abs_mult)
  then show ?thesis
    using False by (simp add: float_of_def Let_def q_def e_def)
qed

lemma finite_float_le:
  assumes "\<bar>x\<bar> \<le> 2 ^ 1023"
  shows "finite_float x"
proof -
  have "\<bar>x\<bar> \<le> 2 powi 1023" using assms by simp
  from float_of_abs_le [OF this] have "\<bar>float_of x\<bar> \<le> 2 ^ 1023" by simp
  moreover have "(2::rat) ^ 1023 < 2 ^ 1024" by (rule power_strict_increasing) simp_all
  ultimately show ?thesis unfolding finite_float_def by linarith
qed

lemma round_tenth_finite:
  assumes "\<bar>r\<bar> < 2 ^ 1024"
  shows "finite_float (of_int (py_round r) / 10)"
proof -
  have "\<bar>r\<bar> \<le> of_int (2 ^ 1024)" using assms by simp
  from py_round_abs_le [OF this] have "\<bar>py_round r\<bar> \<le> 2 ^ 1024" .
  then have "(of_int \<bar>py_round r\<bar> :: rat) \<le> of_int (2 ^ 1024)" by (simp only: of_int_le_iff)
  then have a: "\<bar>of_int (py_round r) :: rat\<bar> \<le> 2 ^ 1024" by simp
  have "(2::rat) ^ 1024 = 2 * 2 ^ 1023" by simp
  with a have "\<bar>of_int (py_round r) / 10 :: rat\<bar> \<le> 2 ^ 1023" by simp
  then show ?thesis by (rule finite_float_le)
qed

text \<open>The chain of the ratio expressions: the last division never overflows.\<close>

lemma ratio_steps:
  "(case int_truediv a b of
      Inl e \<Rightarrow> Inl e
    | Inr q \<Rightarrow>
        (case round_float (float_mul q 1000) of
           Inl e \<Rightarrow> Inl e
         | Inr n \<Rightarrow> map_sum id Fl (int_truediv n 10)))
   = (if b = 0 then Inl ZeroDivisionError
      else if ratio_in_range a b then Inr (Fl (ratio_float a b))
      else Inl OverflowError)"
proof -
  have "finite_float (float_of (of_int a / of_int b) * 1000) \<Longrightarrow>
      finite_float (of_int (py_round (float_of (float_of (of_int a / of_int b) * 1000))) / 10)"
    unfolding finite_float_def [of "float_of (of_int a / of_int b) * 1000"]
    by (rule round_tenth_finite)
  then show ?thesis
    by (auto simp: int_truediv_def float_mul_def round_float_def)
qed

lemma day_ratio_int:
  "day_ratio (JInt S) Y =
     (if Y = 0 then Inl ZeroDivisionError
      else if ratio_in_range S Y then Inr (Fl (ratio_float S Y))
      else Inl OverflowError)"
  unfolding day_ratio_def as_num.simps sum.case ratio_steps ..

lemma period_ratio_ints:
  "period_ratio (JInt sc) (JInt c) =
     (if c = 0 then Inl ZeroDivisionError
      else if ratio_in_range (sc * 1000) c then Inr (Fl (ratio_float (sc * 1000) c))
      else Inl OverflowError)"
  unfolding period_ratio_def as_num.simps sum.case ratio_steps ..

text \<open>Evaluation of the rounding on numerals.\<close>

lemma floor_num_div: "\<lfloor>(numeral a :: rat) / numeral b\<rfloor> = numeral a div numeral b"
  using floor_divide_of_int_eq [of "numeral a" "numeral b", where ?'a = rat] by simp

lemma ceiling_num_div:
  "\<lceil>(numeral a :: rat) / numeral b\<rceil> = - (- numeral a div numeral b)"
  using floor_divide_of_int_eq [of "- numeral a" "numeral b", where ?'a = rat]
  by (simp add: ceiling_def)

lemma two_powi: "(2::rat) powi q = (if 0 \<le> q then 2 ^ nat q else 1 / 2 ^ nat (- q))"
  by (simp add: power_int_def inverse_eq_divide power_one_over)

lemmas float_eval =
  float_of_def finite_float_def exponent_def two_powi py_round_def Let_def
  floor_num_div ceiling_num_div bit_length.simps

lemma ratio_15_90:
  "ratio_in_range 15000 90" "ratio_float 15000 90 = float_of (166667 / 10)"
  by (simp_all add: float_eval)

lemma ratio_10_80: "ratio_in_range 10000 80" "ratio_float 10000 80 = 12500"
  by (simp_all add: float_eval)


lemma ratio_203_400: "ratio_in_range 203 400" "ratio_float 203 400 = float_of (507 / 10)"
  by (simp_all add: float_eval)

text \<open>
  The float arithmetic is not the exact one: for 203 of 400 the product
  \<^verbatim>\<open>(203 / 400) * 1000\<close> is a float just below 507.5 and the ratio is 50.7, where exact
  arithmetic gives 507.5 and rounds it to 508.
\<close>

lemma day_ratio_203_400:
  "day_ratio (JInt 203) 400 = Inr (Fl (float_of (507 / 10)))
   \<and> float_of (float_of (203 / 400) * 1000) < 1015 / 2
   \<and> py_round ((203 / 400) * 1000) = 508
   \<and> float_of (507 / 10) \<noteq> float_of (508 / 10)"
proof -
  have "day_ratio (JInt 203) 400 = Inr (Fl (float_of (507 / 10)))"
    unfolding day_ratio_int using ratio_203_400 by simp
  moreover have "float_of (float_of (203 / 400) * 1000) < 1015 / 2"
    by (simp add: float_eval)
  moreover have "py_round ((203 / 400) * 1000) = 508"
    by (simp add: float_eval)
  moreover have "float_of (507 / 10) \<noteq> float_of (508 / 10)"
    by (simp add: float_eval)
  ultimately show ?thesis by simp
qed

section \<open>Historic aggregates\<close>

lemma seq_index_nat [simp]:
  "seq_index xs (int k) = (if k < length xs then Inr (xs ! k) else Inl IndexError)"
  by (simp add: seq_index_def)

lemma seq_index_0 [simp]: "seq_index xs 0 = (if xs = [] then Inl IndexError else Inr (xs ! 0))"
  by (simp add: seq_index_def)

lemma seq_index_numeral [simp]:
  "seq_index xs (numeral k) =
     (if numeral k < length xs then Inr (xs ! numeral k) else Inl IndexError)"
  using seq_index_nat [of xs "numeral k"] by simp

lemma seq_index_1 [simp]:
  "seq_index xs 1 = (if 1 < length xs then Inr (xs ! 1) else Inl IndexError)"
  using seq_index_nat [of xs 1] by simp

lemma seq_index_last [simp]: "seq_index (pre @ [a, b]) (- 1) = Inr b"
proof -
  have j: "nat (int (length (pre @ [a, b])) + (- 1)) = Suc (length pre)" by simp
  have v: "(pre @ [a, b]) ! Suc (length pre) = b" by (simp add: nth_append)
  show ?thesis unfolding seq_index_def using j v by (simp del: length_append)
qed

lemma seq_index_last2 [simp]: "seq_index (pre @ [a, b]) (- 2) = Inr a"
proof -
  have j: "nat (int (length (pre @ [a, b])) + (- 2)) = length pre" by simp
  have v: "(pre @ [a, b]) ! length pre = a" by (simp add: nth_append)
  have l: "2 \<le> length (pre @ [a, b])" by simp
  show ?thesis unfolding seq_index_def using j v l by (simp del: length_append)
qed

lemma period_pubs_ints:
  assumes "0 < c \<longrightarrow> ratio_in_range (sc * 1000) c"
  shows "period_pubs t rt (JList [d, y, JInt c, JInt sc]) s =
     (Inr (), s\<lparr>published := published s @ (t, Js (JInt sc)) #
        (if c > 0 then [(rt, Fl (ratio_float (sc * 1000) c))] else [])\<rparr>)"
proof -
  have p: "py_or (JInt c) (JInt 0) = JInt c" by (simp add: py_or_def)
  show ?thesis
    using assms
    by (simp add: period_pubs_def run_simps py_positive_def p period_ratio_ints)
qed

text \<open>A ratio that overflows ends the block after the value has been published.\<close>

lemma period_pubs_overflow:
  assumes "0 < c" and "\<not> ratio_in_range (sc * 1000) c"
  shows "period_pubs t rt (JList [d, y, JInt c, JInt sc]) s =
     (Inl OverflowError, s\<lparr>published := published s @ [(t, Js (JInt sc))]\<rparr>)"
proof -
  have p: "py_or (JInt c) (JInt 0) = JInt c" by (simp add: py_or_def)
  show ?thesis
    using assms
    by (simp add: period_pubs_def run_simps py_positive_def p period_ratio_ints)
qed

lemma last_rows_pubs_scenario:
  "last_rows_pubs t rt lt lrt
     (JList (pre @ [JList [d0, JInt 100, JInt 80, JInt 10], JList [d1, JInt 120, JInt 90, JInt 15]])) s
   = (Inr (), s\<lparr>published := published s @
        [(t, Js (JInt 15)), (rt, Fl (float_of (166667 / 10))), (lt, Js (JInt 10)),
         (lrt, Fl 12500)]\<rparr>)"
proof -
  have a: "period_pubs t rt (JList [d1, JInt 120, JInt 90, JInt 15]) s =
      (Inr (), s\<lparr>published := published s @
         [(t, Js (JInt 15)), (rt, Fl (float_of (166667 / 10)))]\<rparr>)" for s
    using period_pubs_ints [of 90 15 t rt d1 "JInt 120" s] ratio_15_90 by simp
  have b: "period_pubs lt lrt (JList [d0, JInt 100, JInt 80, JInt 10]) s =
      (Inr (), s\<lparr>published := published s @ [(lt, Js (JInt 10)), (lrt, Fl 12500)]\<rparr>)" for s
    using period_pubs_ints [of 80 10 lt lrt d0 "JInt 100" s] ratio_10_80 by simp
  show ?thesis
    by (simp add: last_rows_pubs_def run_simps andthen_def a b)
qed


text \<open>
  C4, as amended.  For a historic payload without 854 whose 877 table ends with the rows
  \<open>[d0,100,80,10]\<close> and \<open>[d1,120,90,15]\<close>, the decoder publishes current-month
  self-consumption 15 with ratio \<open>round(((15 * 1000) / 90) * 1000) / 10 = 16666.7\<close> and
  last-month self-consumption 10 with ratio \<open>round(((10 * 1000) / 80) * 1000) / 10 = 12500.0\<close>,
  in this order, before anything else.  The ratios are floats: \<open>float_of (166667 / 10)\<close> is
  the float written \<^verbatim>\<open>16666.7\<close>, and 12500 is a float as it stands.
\<close>

theorem historic_month_aggregate_ratio:
  assumes "map_of kvs ''854'' = None"
    and "map_of kvs ''877'' = Some (JList (pre @
           [JList [d0, JInt 100, JInt 80, JInt 10], JList [d1, JInt 120, JInt 90, JInt 15]]))"
  shows "\<exists>rest. published (snd (process_historic_response (JObj kvs) s)) =
     published s @
       [(''SelfCons/selfconsmonth'', Js (JInt 15)),
        (''SelfCons/selfconsratiomonth'', Fl (float_of (166667 / 10))),
        (''SelfCons/selfconslastmonth'', Js (JInt 10)),
        (''SelfCons/selfconsratiolastmonth'', Fl 12500)] @ rest"
proof -
  let ?four = "[(''SelfCons/selfconsmonth'', Js (JInt 15)),
        (''SelfCons/selfconsratiomonth'', Fl (float_of (166667 / 10))),
        (''SelfCons/selfconslastmonth'', Js (JInt 10)),
        (''SelfCons/selfconsratiolastmonth'', Fl 12500)]"
  let ?s1 = "s\<lparr>published := published s @ ?four\<rparr>"
  let ?rows = "JList (pre @
           [JList [d0, JInt 100, JInt 80, JInt 10], JList [d1, JInt 120, JInt 90, JInt 15]])"
  define sec878 :: "unit run" where
    "sec878 = (case map_of kvs ''878'' of
                  None \<Rightarrow> ret ()
                | Some data_year_tot \<Rightarrow>
                    andthen (last_rows_pubs ''SelfCons/selfconsyear''
                               ''SelfCons/selfconsratioyear'' ''SelfCons/selfconslastyear''
                               ''SelfCons/selfconsratiolastyear'' data_year_tot) (\<lambda>_.
                    andthen (lift (py_iter data_year_tot)) (\<lambda>entries.
                    for_each entries year_entry_878)))"
  define tail :: "unit run" where
    "tail = andthen (andthen (lift (py_iter ?rows)) (\<lambda>entries. for_each entries month_entry_877))
       (\<lambda>_. run_all [sec878])"
  have "appends sec878"
    unfolding sec878_def by (cases "map_of kvs ''878''") auto
  then have ap: "appends (try_except tail Exception (ret ()))"
    unfolding tail_def by auto
  have run: "process_historic_response (JObj kvs) s = try_except tail Exception (ret ()) ?s1"
    using assms
    by (simp add: process_historic_response_def try_except_def andthen_def
        last_rows_pubs_scenario tail_def sec878_def ret_def)
  from appendsD [OF ap, of ?s1] obtain rest where
    "published (snd (try_except tail Exception (ret ()) ?s1)) = published ?s1 @ rest" by auto
  with run show ?thesis by simp
qed


theorem historic_month_aggregate_ratio_witness:
  "map_of [(''877'', JList ([] @ [JList [JStr ''01.09.25'', JInt 100, JInt 80, JInt 10],
                                  JList [JStr ''01.10.25'', JInt 120, JInt 90, JInt 15]]))] ''854'' = None
   \<and> (\<exists>rest. published (snd (process_historic_response
          (JObj [(''877'', JList ([] @ [JList [JStr ''01.09.25'', JInt 100, JInt 80, JInt 10],
                                  JList [JStr ''01.10.25'', JInt 120, JInt 90, JInt 15]]))]) init_dp)) =
        published init_dp @
          [(''SelfCons/selfconsmonth'', Js (JInt 15)),
           (''SelfCons/selfconsratiomonth'', Fl (float_of (166667 / 10))),
           (''SelfCons/selfconslastmonth'', Js (JInt 10)),
           (''SelfCons/selfconsratiolastmonth'', Fl 12500)] @ rest)"
  using historic_month_aggregate_ratio [of "[(''877'', JList ([] @ [JList [JStr ''01.09.25'', JInt 100, JInt 80, JInt 10],
                                  JList [JStr ''01.10.25'', JInt 120, JInt 90, JInt 15]]))]" "[]"
      "JStr ''01.09.25''" "JStr ''01.10.25''" init_dp]
  by simp

lemma month_entry_877_row:
  "y \<noteq> 0 \<Longrightarrow>
   month_entry_877 (JList [JStr d, JInt y, c, sc]) s =
     (Inr (), s\<lparr>published := published s @
        [(''Historic/20'' @ drop (length d - 2) d @ ''/monthly/'' @ take 2 (drop 3 d)
            @ ''/yieldmonth'', Js (JInt y)),
         (''Historic/20'' @ drop (length d - 2) d @ ''/monthly/'' @ take 2 (drop 3 d)
            @ ''/consmonth'', Js c),
         (''Historic/20'' @ drop (length d - 2) d @ ''/monthly/'' @ take 2 (drop 3 d)
            @ ''/selfconsmonth'', Js sc)]\<rparr>)"
  by (simp add: month_entry_877_def month_series_pubs_def run_simps py_str_def)

text \<open>
  C4, as stated, fails: on the two rows of the scenario the decoder publishes the
  ratios 16666.7 and 12500.0, not 16.7 and 12.5.
\<close>

theorem historic_month_ratio_counterexample:
  "published (snd (process_historic_response
      (JObj [(''877'', JList [JList [JStr ''01.09.25'', JInt 100, JInt 80, JInt 10],
                              JList [JStr ''01.10.25'', JInt 120, JInt 90, JInt 15]])]) init_dp))
   = [(''SelfCons/selfconsmonth'', Js (JInt 15)),
      (''SelfCons/selfconsratiomonth'', Fl (float_of (166667 / 10))),
      (''SelfCons/selfconslastmonth'', Js (JInt 10)),
      (''SelfCons/selfconsratiolastmonth'', Fl 12500),
      (''Historic/2025/monthly/09/yieldmonth'', Js (JInt 100)),
      (''Historic/2025/monthly/09/consmonth'', Js (JInt 80)),
      (''Historic/2025/monthly/09/selfconsmonth'', Js (JInt 10)),
      (''Historic/2025/monthly/10/yieldmonth'', Js (JInt 120)),
      (''Historic/2025/monthly/10/consmonth'', Js (JInt 90)),
      (''Historic/2025/monthly/10/selfconsmonth'', Js (JInt 15))]
   \<and> Fl (float_of (166667 / 10)) \<noteq> Fl (float_of (167 / 10))
   \<and> Fl 12500 \<noteq> Fl (float_of (125 / 10))"
proof -
  have rows: "last_rows_pubs ''SelfCons/selfconsmonth'' ''SelfCons/selfconsratiomonth''
      ''SelfCons/selfconslastmonth'' ''SelfCons/selfconsratiolastmonth''
      (JList [JList [JStr ''01.09.25'', JInt 100, JInt 80, JInt 10],
              JList [JStr ''01.10.25'', JInt 120, JInt 90, JInt 15]]) init_dp
    = (Inr (), init_dp\<lparr>published := published init_dp @
        [(''SelfCons/selfconsmonth'', Js (JInt 15)),
         (''SelfCons/selfconsratiomonth'', Fl (float_of (166667 / 10))),
         (''SelfCons/selfconslastmonth'', Js (JInt 10)),
         (''SelfCons/selfconsratiolastmonth'', Fl 12500)]\<rparr>)"
    using last_rows_pubs_scenario [of _ _ _ _ "[]"] by simp
  have empty: "published init_dp = []" by (simp add: init_dp_def)
  have run: "published (snd (process_historic_response
      (JObj [(''877'', JList [JList [JStr ''01.09.25'', JInt 100, JInt 80, JInt 10],
                              JList [JStr ''01.10.25'', JInt 120, JInt 90, JInt 15]])]) init_dp))
   = [(''SelfCons/selfconsmonth'', Js (JInt 15)),
      (''SelfCons/selfconsratiomonth'', Fl (float_of (166667 / 10))),
      (''SelfCons/selfconslastmonth'', Js (JInt 10)),
      (''SelfCons/selfconsratiolastmonth'', Fl 12500),
      (''Historic/2025/monthly/09/yieldmonth'', Js (JInt 100)),
      (''Historic/2025/monthly/09/consmonth'', Js (JInt 80)),
      (''Historic/2025/monthly/09/selfconsmonth'', Js (JInt 10)),
      (''Historic/2025/monthly/10/yieldmonth'', Js (JInt 120)),
      (''Historic/2025/monthly/10/consmonth'', Js (JInt 90)),
      (''Historic/2025/monthly/10/selfconsmonth'', Js (JInt 15))]"
    by (simp add: process_historic_response_def try_except_def andthen_def rows
        month_entry_877_row ret_def lift_def empty)
  have ne: "Fl (float_of (166667 / 10)) \<noteq> Fl (float_of (167 / 10))
     \<and> Fl 12500 \<noteq> Fl (float_of (125 / 10))"
    by (simp add: float_eval)
  from run ne show ?thesis by (rule conjI)
qed

section \<open>The static month and year tables\<close>
















section \<open>Fast and periodic poll\<close>

lemma init_fields [simp]:
  "inverter_names init_dp = []" "switch_group_names init_dp = []" "published init_dp = []"
  "battery_present init_dp = False" "battery_device_present init_dp = False"
  "battery_index init_dp = []" "device_classes init_dp = []"
  by (simp_all add: init_dp_def)

text \<open>
  C6.  For a fast-poll payload with production \<open>P\<close> (780) and consumption \<open>C\<close> (781)
  and battery figures that are numbers (discharge \<open>d\<close> in fourth place, charge \<open>c\<close> in
  third place; they are zeros when the payload carries no battery block),
  \<^verbatim>\<open>process_production_consumption\<close> returns normally and publishes exactly six
  values: the net production \<open>P - d\<close>, the net consumption \<open>C - c\<close>, \<open>feed = P - C\<close>, and
  then \<open>feedin = feed\<close>, \<open>feedinactive = True\<close>, \<open>feedout = 0\<close> when \<open>feed > 0\<close>, and
  \<open>feedin = 0\<close>, \<open>feedinactive = False\<close>, \<open>feedout = |feed|\<close> otherwise.
\<close>

theorem feed_split_exact:
  assumes "map_of data ''780'' = Some (JInt P)" and "map_of data ''781'' = Some (JInt C)"
    and "py_index battery_data 3 = Inr (JInt d)" and "py_index battery_data 2 = Inr (JInt c)"
  shows "process_production_consumption data battery_data s =
     (Inr (), s\<lparr>published := published s @
        [(''status/pac'', Js (JInt (P - d))),
         (''status/conspac'', Js (JInt (C - c))),
         (''status/feed'', Js (JInt (P - C))),
         (''status/feedin'', Js (JInt (if P - C > 0 then P - C else 0))),
         (''status/feedinactive'', Js (JBool (P - C > 0))),
         (''status/feedout'', Js (JInt (if P - C > 0 then 0 else \<bar>P - C\<bar>)))]\<rparr>)"
  using assms
  by (simp add: process_production_consumption_def py_or_def py_sub_def andthen_def lift_def
      publish_def ret_def Let_def)

theorem feed_split_exact_witness:
  "map_of [(''780'', JInt 500), (''781'', JInt 350)] ''780'' = Some (JInt 500)
   \<and> map_of [(''780'', JInt 500), (''781'', JInt 350)] ''781'' = Some (JInt 350)
   \<and> map_of [(''780'', JInt 200), (''781'', JInt 350)] ''780'' = Some (JInt 200)
   \<and> map_of [(''780'', JInt 200), (''781'', JInt 350)] ''781'' = Some (JInt 350)
   \<and> py_index (JList [JInt 0, JInt 80, JInt 20, JInt 0]) 3 = Inr (JInt 0)
   \<and> py_index (JList [JInt 0, JInt 80, JInt 20, JInt 0]) 2 = Inr (JInt 20)
   \<and> process_production_consumption [(''780'', JInt 500), (''781'', JInt 350)]
         (JList [JInt 0, JInt 80, JInt 20, JInt 0]) init_dp =
       (Inr (), init_dp\<lparr>published := published init_dp @
        [(''status/pac'', Js (JInt 500)),
         (''status/conspac'', Js (JInt 330)),
         (''status/feed'', Js (JInt 150)),
         (''status/feedin'', Js (JInt 150)),
         (''status/feedinactive'', Js (JBool True)),
         (''status/feedout'', Js (JInt 0))]\<rparr>)
   \<and> process_production_consumption [(''780'', JInt 200), (''781'', JInt 350)]
         (JList [JInt 0, JInt 80, JInt 20, JInt 0]) init_dp =
       (Inr (), init_dp\<lparr>published := published init_dp @
        [(''status/pac'', Js (JInt 200)),
         (''status/conspac'', Js (JInt 330)),
         (''status/feed'', Js (JInt (- 150))),
         (''status/feedin'', Js (JInt 0)),
         (''status/feedinactive'', Js (JBool False)),
         (''status/feedout'', Js (JInt 150))]\<rparr>)"
proof -
  have a: "map_of [(''780'', JInt 500), (''781'', JInt 350)] ''780'' = Some (JInt 500)" by simp
  have b: "map_of [(''780'', JInt 500), (''781'', JInt 350)] ''781'' = Some (JInt 350)" by simp
  have a': "map_of [(''780'', JInt 200), (''781'', JInt 350)] ''780'' = Some (JInt 200)" by simp
  have b': "map_of [(''780'', JInt 200), (''781'', JInt 350)] ''781'' = Some (JInt 350)" by simp
  have c: "py_index (JList [JInt 0, JInt 80, JInt 20, JInt 0]) 3 = Inr (JInt 0)"
    by (simp add: seq_index_def)
  have d: "py_index (JList [JInt 0, JInt 80, JInt 20, JInt 0]) 2 = Inr (JInt 20)"
    by (simp add: seq_index_def)
  from feed_split_exact [OF a b c d, of init_dp] feed_split_exact [OF a' b' c d, of init_dp]
  have "process_production_consumption [(''780'', JInt 500), (''781'', JInt 350)]
         (JList [JInt 0, JInt 80, JInt 20, JInt 0]) init_dp =
       (Inr (), init_dp\<lparr>published := published init_dp @
        [(''status/pac'', Js (JInt 500)),
         (''status/conspac'', Js (JInt 330)),
         (''status/feed'', Js (JInt 150)),
         (''status/feedin'', Js (JInt 150)),
         (''status/feedinactive'', Js (JBool True)),
         (''status/feedout'', Js (JInt 0))]\<rparr>)
   \<and> process_production_consumption [(''780'', JInt 200), (''781'', JInt 350)]
         (JList [JInt 0, JInt 80, JInt 20, JInt 0]) init_dp =
       (Inr (), init_dp\<lparr>published := published init_dp @
        [(''status/pac'', Js (JInt 200)),
         (''status/conspac'', Js (JInt 330)),
         (''status/feed'', Js (JInt (- 150))),
         (''status/feedin'', Js (JInt 0)),
         (''status/feedinactive'', Js (JBool False)),
         (''status/feedout'', Js (JInt 150))]\<rparr>)"
    by simp
  with a b a' b' c d show ?thesis by blast
qed

text \<open>
  A payload without a battery block (858): the battery step hands over four zeros, so
  the net figures are \<open>P\<close> and \<open>C\<close> themselves and the feed values follow as above.
  Battery figures that are not numbers make the subtraction raise before anything is
  published.
\<close>

lemma feed_split_no_battery:
  assumes "map_of data ''780'' = Some (JInt P)" and "map_of data ''781'' = Some (JInt C)"
    and "map_of data ''858'' = None"
  shows "andthen (process_battery_data data) (process_production_consumption data) s =
     (Inr (), s\<lparr>published := published s @
        [(''status/pac'', Js (JInt P)),
         (''status/conspac'', Js (JInt C)),
         (''status/feed'', Js (JInt (P - C))),
         (''status/feedin'', Js (JInt (if P - C > 0 then P - C else 0))),
         (''status/feedinactive'', Js (JBool (P - C > 0))),
         (''status/feedout'', Js (JInt (if P - C > 0 then 0 else \<bar>P - C\<bar>)))]\<rparr>)"
  using assms
  by (simp add: process_battery_data_def process_production_consumption_def py_or_def
      py_sub_def andthen_def lift_def publish_def ret_def Let_def)

lemma feed_split_raises:
  assumes "map_of data ''780'' = Some (JInt P)" and "map_of data ''781'' = Some (JInt C)"
    and "py_index battery_data 3 = Inr b3" and "as_num b3 = Inl e"
  shows "process_production_consumption data battery_data s = (Inl e, s)"
  using assms
  by (simp add: process_production_consumption_def py_or_def py_sub_def andthen_def lift_def
      Let_def)

lemma fast_poll_scenario:
  "(\<exists>v. map_of kvs ''608'' = Some v) \<or> map_of kvs ''608'' = None \<Longrightarrow>
   map_of kvs ''780'' = Some (JInt 500) \<Longrightarrow> map_of kvs ''781'' = Some (JInt 350) \<Longrightarrow>
   map_of kvs ''784'' = None \<Longrightarrow> map_of kvs ''785'' = None \<Longrightarrow>
   map_of kvs ''801'' = None \<Longrightarrow> map_of kvs ''794'' = None \<Longrightarrow> map_of kvs ''858'' = None \<Longrightarrow>
   process_fast_poll (JObj kvs) init_dp =
     (Inr (), init_dp\<lparr>published :=
        [(''status/pac'', Js (JInt 500)), (''status/conspac'', Js (JInt 350)),
         (''status/feed'', Js (JInt 150)), (''status/feedin'', Js (JInt 150)),
         (''status/feedinactive'', Js (JBool True)), (''status/feedout'', Js (JInt 0))]\<rparr>)"
  by (auto simp add: process_fast_poll_def process_inverter_status_def process_inverter_extras_def
      process_switch_group_states_def process_battery_data_def
      process_production_consumption_def dict_get_def
      andthen_def ret_def lift_def publish_def py_or_def py_sub_def seq_index_def Let_def
      split: option.splits)


lemma periodic_scenario:
  "published (snd (process_periodic_poll today yesterday
         (JObj [(''801'', JObj [(''170'', JObj [(''101'', JInt 0), (''110'', JInt 0)])])]) s))
     = published s @
       [(''status/conspac'', Js (JInt 0)), (''status/yieldday'', Js (JInt 0)),
        (''status/yieldyesterday'', Js (JInt 0)), (''status/yieldmonth'', Js (JInt 0)),
        (''status/yieldyear'', Js (JInt 0)), (''status/yieldtotal'', Js (JInt 0)),
        (''status/consyieldday'', Js (JInt 0)), (''status/consyieldyesterday'', Js (JInt 0)),
        (''status/consyieldmonth'', Js (JInt 0)), (''status/consyieldyear'', Js (JInt 0)),
        (''status/consyieldtotal'', Js (JInt 0)), (''info/lastSync'', Js (JStr []))]"
  by (simp add: process_periodic_poll_def with_block_0_def periodic_summary_def dict_get_def
      run_simps py_str_def digit_char_def)

lemma publishes_onlyI:
  "(\<And>s. \<exists>rest. published (snd (m s)) = published s @ rest \<and> list_all P rest)
   \<Longrightarrow> publishes_only P m"
  by (simp add: publishes_only_def)

lemma publishes_onlyD:
  "publishes_only P m \<Longrightarrow> \<exists>rest. published (snd (m s)) = published s @ rest \<and> list_all P rest"
  by (simp add: publishes_only_def)

lemma publishes_only_ret: "publishes_only P (ret x)"
  by (simp add: publishes_only_def ret_def)

lemma publishes_only_lift: "publishes_only P (lift r)"
  by (simp add: publishes_only_def lift_def)

lemma publishes_only_publish: "P (topic, v) \<Longrightarrow> publishes_only P (publish topic v)"
  by (simp add: publishes_only_def publish_def)

lemma publishes_only_silent:
  "(\<And>s. published (snd (m s)) = published s) \<Longrightarrow> publishes_only P m"
  by (simp add: publishes_only_def)

lemma publishes_only_andthen:
  assumes "publishes_only P m" and "\<And>x. publishes_only P (f x)"
  shows "publishes_only P (andthen m f)"
proof (rule publishes_onlyI)
  fix s
  obtain r s1 where m: "m s = (r, s1)" by (cases "m s")
  from publishes_onlyD [OF assms(1), of s] m obtain r1 where
    r1: "published s1 = published s @ r1" "list_all P r1" by auto
  show "\<exists>rest. published (snd (andthen m f s)) = published s @ rest \<and> list_all P rest"
  proof (cases r)
    case (Inl e)
    with m r1 show ?thesis by (simp add: andthen_def)
  next
    case (Inr x)
    from publishes_onlyD [OF assms(2), of x s1] obtain r2 where
      "published (snd (f x s1)) = published s1 @ r2" "list_all P r2" by auto
    with m r1 Inr have "published (snd (andthen m f s)) = published s @ (r1 @ r2)"
      "list_all P (r1 @ r2)" by (simp_all add: andthen_def)
    then show ?thesis by blast
  qed
qed

lemma publishes_only_nil: "publishes_only P (run_all [])"
  by (simp add: publishes_only_ret)

lemma publishes_only_cons:
  "publishes_only P m \<Longrightarrow> publishes_only P (run_all ms) \<Longrightarrow> publishes_only P (run_all (m # ms))"
  by (simp add: publishes_only_andthen)

lemma publishes_only_guarded:
  "(b \<Longrightarrow> P (topic, v)) \<Longrightarrow> publishes_only P (if b then publish topic v else ret ())"
  by (simp add: publishes_only_publish publishes_only_ret)

lemma publishes_only_converted:
  "(\<And>v. P (topic, f v)) \<Longrightarrow> publishes_only P (andthen (lift r) (\<lambda>v. publish topic (f v)))"
  by (intro publishes_only_andthen publishes_only_lift publishes_only_publish)

lemma publishes_only_assigned:
  "(\<And>v s. published (g v s) = published s)
   \<Longrightarrow> publishes_only P (andthen (lift r) (\<lambda>v s. (Inr (), g v s)))"
  by (intro publishes_only_andthen publishes_only_lift publishes_only_silent) simp

lemma publishes_only_from_state:
  "(\<And>s. P (topic, h s)) \<Longrightarrow> publishes_only P (\<lambda>s. publish topic (h s) s)"
  by (simp add: publishes_only_def publish_def)

lemma publishes_only_update:
  "(\<And>s. published (g s) = published s) \<Longrightarrow> publishes_only P (\<lambda>s. (Inr (), g s))"
  by (simp add: publishes_only_def)

text \<open>
  The summary block of the periodic decoder never publishes a zero \<^verbatim>\<open>status/pac\<close>,
  \<^verbatim>\<open>status/pdc\<close>, \<^verbatim>\<open>status/uac\<close> or \<^verbatim>\<open>status/udc\<close>.
\<close>

lemma periodic_summary_holds_zero_back:
  "publishes_only no_zero_power (periodic_summary json_data)"
  unfolding periodic_summary_def
  by (intro publishes_only_andthen publishes_only_lift publishes_only_cons publishes_only_nil
      publishes_only_guarded publishes_only_converted publishes_only_assigned
      publishes_only_from_state publishes_only_update publishes_only_publish)
    (simp_all add: no_zero_power_def)

text \<open>
  C1.  After a fast poll published \<^verbatim>\<open>status/conspac\<close> 350, a periodic payload whose
  summary carries consumption power 0 (field 110) and AC power 0 (field 101) publishes
  \<^verbatim>\<open>status/conspac\<close> 0: the zero \<^verbatim>\<open>status/pac\<close> is held back, the zero
  \<^verbatim>\<open>status/conspac\<close> is republished.
\<close>

theorem periodic_zero_conspac_republished:
  "published (snd (process_fast_poll (JObj [(''780'', JInt 500), (''781'', JInt 350)]) init_dp))
     = [(''status/pac'', Js (JInt 500)), (''status/conspac'', Js (JInt 350)),
        (''status/feed'', Js (JInt 150)), (''status/feedin'', Js (JInt 150)),
        (''status/feedinactive'', Js (JBool True)), (''status/feedout'', Js (JInt 0))]
   \<and> published (snd (process_periodic_poll ''04.11.26'' ''03.11.26''
         (JObj [(''801'', JObj [(''170'', JObj [(''101'', JInt 0), (''110'', JInt 0)])])])
         (snd (process_fast_poll (JObj [(''780'', JInt 500), (''781'', JInt 350)]) init_dp))))
     = [(''status/pac'', Js (JInt 500)), (''status/conspac'', Js (JInt 350)),
        (''status/feed'', Js (JInt 150)), (''status/feedin'', Js (JInt 150)),
        (''status/feedinactive'', Js (JBool True)), (''status/feedout'', Js (JInt 0)),
        (''status/conspac'', Js (JInt 0)), (''status/yieldday'', Js (JInt 0)),
        (''status/yieldyesterday'', Js (JInt 0)), (''status/yieldmonth'', Js (JInt 0)),
        (''status/yieldyear'', Js (JInt 0)), (''status/yieldtotal'', Js (JInt 0)),
        (''status/consyieldday'', Js (JInt 0)), (''status/consyieldyesterday'', Js (JInt 0)),
        (''status/consyieldmonth'', Js (JInt 0)), (''status/consyieldyear'', Js (JInt 0)),
        (''status/consyieldtotal'', Js (JInt 0)), (''info/lastSync'', Js (JStr []))]"
proof -
  have f: "process_fast_poll (JObj [(''780'', JInt 500), (''781'', JInt 350)]) init_dp =
     (Inr (), init_dp\<lparr>published :=
        [(''status/pac'', Js (JInt 500)), (''status/conspac'', Js (JInt 350)),
         (''status/feed'', Js (JInt 150)), (''status/feedin'', Js (JInt 150)),
         (''status/feedinactive'', Js (JBool True)), (''status/feedout'', Js (JInt 0))]\<rparr>)"
    by (rule fast_poll_scenario) simp_all
  show ?thesis unfolding f periodic_scenario snd_conv by simp
qed

theorem periodic_zero_conspac_republished_witness:
  "map_of [(''780'', JInt 500), (''781'', JInt 350)] ''780'' = Some (JInt 500)
   \<and> jget (JObj [(''101'', JInt 0), (''110'', JInt 0)]) 110 (JInt 0) = JInt 0
   \<and> (''status/conspac'', Js (JInt 0)) \<in> set (published (snd (process_periodic_poll
         ''04.11.26'' ''03.11.26''
         (JObj [(''801'', JObj [(''170'', JObj [(''101'', JInt 0), (''110'', JInt 0)])])])
         (snd (process_fast_poll (JObj [(''780'', JInt 500), (''781'', JInt 350)]) init_dp)))))"
  using periodic_zero_conspac_republished
  by (simp add: dict_get_def digit_char_def)

section \<open>The access-denied check\<close>

lemma restart_bridge_run:
  "restart_bridge reason s =
     (Inl SystemExit,
      s\<lparr>published := published s @
           [(''info/connection'', Js (JBool False)),
            (''info/restart_reason'', Js (JStr reason)),
            (''info/connection'', Js (JBool False))],
        running := False, exit_code := Some EXIT_CODE_RESTART_REQUIRED\<rparr>)"
  by (simp add: restart_bridge_def try_except_def andthen_def publish_def ret_def
      stop_solarlog_def py_exit_def Exception_def)

text \<open>
  C2, as amended.  For a fast-poll payload whose 608 status field has a string containing
  \<^verbatim>\<open>DENIED\<close> as its first entry (index 0 of a list, key \<^verbatim>\<open>"0"\<close> of a dictionary), the fast
  decoder runs the bridge restart: it publishes the connection status and the restart
  reason, stops the loops, exits with the restart status, and publishes nothing derived
  from the payload.
\<close>

theorem access_denied_first_entry_restarts:
  assumes "map_of kvs ''608'' = Some v"
    and "(\<exists>others. v = JList (JStr st # others))
         \<or> (\<exists>ob. v = JObj ob \<and> map_of ob ''0'' = Some (JStr st))"
    and "str_contains ''DENIED'' st"
  shows "process_fast_poll_data (JObj kvs) s =
     (Inl SystemExit,
      s\<lparr>published := published s @
           [(''info/connection'', Js (JBool False)),
            (''info/restart_reason'', Js (JStr ''Access denied'')),
            (''info/connection'', Js (JBool False))],
        running := False, exit_code := Some 2\<rparr>)"
proof -
  have t: "truthy v" using assms(2) by auto
  have f: "first_status v = JStr st" using assms(2) by (auto simp: dict_get_def)
  have "check_access_denied kvs s = (Inl SystemExit,
      s\<lparr>published := published s @
           [(''info/connection'', Js (JBool False)),
            (''info/restart_reason'', Js (JStr ''Access denied'')),
            (''info/connection'', Js (JBool False))],
        running := False, exit_code := Some 2\<rparr>)"
    using assms(1,3) t f
    by (simp add: check_access_denied_def andthen_def restart_bridge_run py_str_def
        EXIT_CODE_RESTART_REQUIRED_def)
  then show ?thesis
    by (simp add: process_fast_poll_data_def try_except_def andthen_def Exception_def)
qed

theorem access_denied_first_entry_restarts_witness:
  "map_of [(''608'', JList [JStr ''ACCESS DENIED'', JStr ''OK'']),
           (''780'', JInt 500), (''781'', JInt 350)] ''608''
     = Some (JList [JStr ''ACCESS DENIED'', JStr ''OK''])
   \<and> str_contains ''DENIED'' ''ACCESS DENIED''
   \<and> process_fast_poll_data
        (JObj [(''608'', JList [JStr ''ACCESS DENIED'', JStr ''OK'']),
           (''780'', JInt 500), (''781'', JInt 350)]) init_dp =
     (Inl SystemExit,
      init_dp\<lparr>published := published init_dp @
           [(''info/connection'', Js (JBool False)),
            (''info/restart_reason'', Js (JStr ''Access denied'')),
            (''info/connection'', Js (JBool False))],
        running := False, exit_code := Some 2\<rparr>)"
proof -
  have a: "map_of [(''608'', JList [JStr ''ACCESS DENIED'', JStr ''OK'']),
           (''780'', JInt 500), (''781'', JInt 350)] ''608''
     = Some (JList [JStr ''ACCESS DENIED'', JStr ''OK''])" by simp
  have b: "(\<exists>others. JList [JStr ''ACCESS DENIED'', JStr ''OK''] = JList (JStr ''ACCESS DENIED'' # others))
         \<or> (\<exists>ob. JList [JStr ''ACCESS DENIED'', JStr ''OK''] = JObj ob
               \<and> map_of ob ''0'' = Some (JStr ''ACCESS DENIED''))" by simp
  have c: "str_contains ''DENIED'' ''ACCESS DENIED''" by (simp add: str_contains_def)
  from access_denied_first_entry_restarts [OF a b c, of init_dp] a c show ?thesis by blast
qed

text \<open>
  C2, as stated, fails: with \<^verbatim>\<open>DENIED\<close> in the second entry of 608 there is no restart,
  and the metrics of the payload are published.
\<close>

theorem access_denied_second_entry_counterexample:
  "process_fast_poll_data
     (JObj [(''608'', JList [JStr ''OK'', JStr ''ACCESS DENIED'']),
            (''780'', JInt 500), (''781'', JInt 350)]) init_dp
   = (Inr (), init_dp\<lparr>published :=
        [(''status/pac'', Js (JInt 500)), (''status/conspac'', Js (JInt 350)),
         (''status/feed'', Js (JInt 150)), (''status/feedin'', Js (JInt 150)),
         (''status/feedinactive'', Js (JBool True)), (''status/feedout'', Js (JInt 0))]\<rparr>)
   \<and> str_contains ''DENIED'' ''ACCESS DENIED''"
proof -
  have c: "check_access_denied [(''608'', JList [JStr ''OK'', JStr ''ACCESS DENIED'']),
            (''780'', JInt 500), (''781'', JInt 350)] init_dp = (Inr False, init_dp)"
    by (simp add: check_access_denied_def py_str_def str_contains_def ret_def)
  have f: "process_fast_poll (JObj [(''608'', JList [JStr ''OK'', JStr ''ACCESS DENIED'']),
            (''780'', JInt 500), (''781'', JInt 350)]) init_dp =
     (Inr (), init_dp\<lparr>published :=
        [(''status/pac'', Js (JInt 500)), (''status/conspac'', Js (JInt 350)),
         (''status/feed'', Js (JInt 150)), (''status/feedin'', Js (JInt 150)),
         (''status/feedinactive'', Js (JBool True)), (''status/feedout'', Js (JInt 0))]\<rparr>)"
    by (rule fast_poll_scenario) simp_all
  have d: "str_contains ''DENIED'' ''ACCESS DENIED''" by (simp add: str_contains_def)
  have "process_fast_poll_data
     (JObj [(''608'', JList [JStr ''OK'', JStr ''ACCESS DENIED'']),
            (''780'', JInt 500), (''781'', JInt 350)]) init_dp
   = (Inr (), init_dp\<lparr>published :=
        [(''status/pac'', Js (JInt 500)), (''status/conspac'', Js (JInt 350)),
         (''status/feed'', Js (JInt 150)), (''status/feedin'', Js (JInt 150)),
         (''status/feedinactive'', Js (JBool True)), (''status/feedout'', Js (JInt 0))]\<rparr>)"
    unfolding process_fast_poll_data_def
    by (simp add: try_except_def andthen_def c f del: map_of.simps)
  with d show ?thesis by blast
qed

section \<open>The date scan\<close>

lemma scan_dates_step:
  assumes "i < length rows" and "is_list (rows ! i)"
  shows "scan_dates t y (JList rows) (i # rest) found =
     scan_dates t y (JList rows) rest
       (if row_has_date t (rows ! i) then Some i else fst found,
        if row_has_date y (rows ! i) then Some i else snd found)"
proof -
  from assms(2) obtain xs where r: "rows ! i = JList xs" by (cases "rows ! i") auto
  show ?thesis
  proof (cases xs)
    case Nil
    with assms(1) r show ?thesis by (simp add: seq_index_def row_has_date_def)
  next
    case (Cons d ds)
    with assms(1) r show ?thesis by (simp add: seq_index_def row_has_date_def)
  qed
qed

lemma scan_dates_none:
  assumes "\<forall>i \<in> set is. i < length rows \<and> is_list (rows ! i)
             \<and> \<not> row_has_date t (rows ! i)"
  shows "\<exists>y'. scan_dates t y (JList rows) is found = Inr (fst found, y')"
  using assms
proof (induction "is" arbitrary: found)
  case Nil
  show ?case by (cases found) simp
next
  case (Cons i rest)
  then have "scan_dates t y (JList rows) (i # rest) found =
     scan_dates t y (JList rows) rest
       (fst found, if row_has_date y (rows ! i) then Some i else snd found)"
    by (simp add: scan_dates_step del: scan_dates.simps)
  moreover from Cons have "\<exists>y'. scan_dates t y (JList rows) rest
       (fst found, if row_has_date y (rows ! i) then Some i else snd found) = Inr (fst found, y')"
    by (metis fst_conv list.set_intros(2))
  ultimately show ?case by simp
qed

lemma scan_dates_none_both:
  assumes "\<forall>i \<in> set is. i < length rows \<and> is_list (rows ! i)
             \<and> \<not> row_has_date t (rows ! i) \<and> \<not> row_has_date y (rows ! i)"
  shows "scan_dates t y (JList rows) is found = Inr found"
  using assms
proof (induction "is" arbitrary: found)
  case Nil
  then show ?case by simp
next
  case (Cons i rest)
  then have "scan_dates t y (JList rows) (i # rest) found =
     scan_dates t y (JList rows) rest found"
    by (simp add: scan_dates_step del: scan_dates.simps)
  with Cons show ?case by simp
qed

lemma scan_dates_append:
  assumes "\<forall>i \<in> set is1. i < length rows \<and> is_list (rows ! i)"
  shows "\<exists>found'. scan_dates t y (JList rows) (is1 @ is2) found =
           scan_dates t y (JList rows) is2 found'"
  using assms
proof (induction is1 arbitrary: found)
  case Nil
  show ?case by (rule exI [of _ found]) simp
next
  case (Cons i rest)
  then have "scan_dates t y (JList rows) ((i # rest) @ is2) found =
     scan_dates t y (JList rows) (rest @ is2)
       (if row_has_date t (rows ! i) then Some i else fst found,
        if row_has_date y (rows ! i) then Some i else snd found)"
    by (simp add: scan_dates_step del: scan_dates.simps)
  with Cons show ?case by simp
qed

lemma scan_dates_last_match:
  assumes lists: "\<forall>i < n. i < length rows \<and> is_list (rows ! i)"
    and k: "k < n" and m: "row_has_date t (rows ! k)"
    and after: "\<forall>j. k < j \<and> j < n \<longrightarrow> \<not> row_has_date t (rows ! j)"
  shows "\<exists>y'. scan_dates t y (JList rows) [0..<n] found = Inr (Some k, y')"
proof -
  have split: "[0..<n] = [0..<k] @ k # [Suc k..<n]"
    using k by (metis less_imp_add_positive upt_add_eq_append upt_conv_Cons
        less_eq_nat.simps(1) upt_rec)
  have "\<forall>i \<in> set [0..<k]. i < length rows \<and> is_list (rows ! i)"
    using lists k by auto
  from scan_dates_append [OF this, of t y "k # [Suc k..<n]" found] obtain found' where
    a: "scan_dates t y (JList rows) [0..<n] found =
        scan_dates t y (JList rows) (k # [Suc k..<n]) found'"
    unfolding split by auto
  have b: "scan_dates t y (JList rows) (k # [Suc k..<n]) found' =
      scan_dates t y (JList rows) [Suc k..<n]
        (Some k, if row_has_date y (rows ! k) then Some k else snd found')"
    using lists k m by (simp add: scan_dates_step del: scan_dates.simps)
  have "\<forall>i \<in> set [Suc k..<n]. i < length rows \<and> is_list (rows ! i)
           \<and> \<not> row_has_date t (rows ! i)"
    using lists after by auto
  from scan_dates_none [OF this, of y "(Some k, if row_has_date y (rows ! k) then Some k else snd found')"]
  obtain y' where "scan_dates t y (JList rows) [Suc k..<n]
        (Some k, if row_has_date y (rows ! k) then Some k else snd found') = Inr (Some k, y')"
    by auto
  with a b show ?thesis by simp
qed


section \<open>Statements that keep a field\<close>

lemma preservesI: "(\<And>s. f (snd (m s)) = f s) \<Longrightarrow> preserves f m"
  by (simp add: preserves_def)

lemma preservesD: "preserves f m \<Longrightarrow> f (snd (m s)) = f s"
  by (simp add: preserves_def)

lemma preserves_ret: "preserves f (ret x)"
  by (simp add: preserves_def ret_def)

lemma preserves_lift: "preserves f (lift r)"
  by (simp add: preserves_def lift_def)

lemma preserves_reader: "preserves f (\<lambda>s. (g s, s))"
  by (simp add: preserves_def)

lemma preserves_publish:
  "(\<And>s x. f (s\<lparr>published := x\<rparr>) = f s) \<Longrightarrow> preserves f (publish topic v)"
  by (simp add: preserves_def publish_def)

lemma preserves_andthen:
  assumes "preserves f m" and "\<And>x. preserves f (g x)"
  shows "preserves f (andthen m g)"
proof (rule preservesI)
  fix s
  obtain r s1 where m: "m s = (r, s1)" by (cases "m s")
  with preservesD [OF assms(1), of s] have s1: "f s1 = f s" by simp
  show "f (snd (andthen m g s)) = f s"
  proof (cases r)
    case (Inl e)
    with m s1 show ?thesis by (simp add: andthen_def)
  next
    case (Inr x)
    with m s1 preservesD [OF assms(2), of x s1] show ?thesis by (simp add: andthen_def)
  qed
qed

lemma preserves_try_except:
  assumes "preserves f m" and "preserves f h"
  shows "preserves f (try_except m c h)"
proof (rule preservesI)
  fix s
  obtain r s1 where m: "m s = (r, s1)" by (cases "m s")
  with preservesD [OF assms(1), of s] have s1: "f s1 = f s" by simp
  show "f (snd (try_except m c h s)) = f s"
    using m s1 preservesD [OF assms(2), of s1] by (cases r) (auto simp: try_except_def)
qed

lemma preserves_state:
  assumes "\<And>s0. preserves f (F s0)"
  shows "preserves f (\<lambda>s. F s s)"
  using assms by (simp add: preserves_def)

lemma preserves_if:
  "(b \<Longrightarrow> preserves f m) \<Longrightarrow> (\<not> b \<Longrightarrow> preserves f n) \<Longrightarrow> preserves f (if b then m else n)"
  by simp

lemmas preserves_intros =
  preserves_andthen preserves_if preserves_lift preserves_ret preserves_publish preserves_reader

lemma preserves_selfcons_fallback:
  assumes "\<And>s x. f (s\<lparr>published := x\<rparr>) = f s"
  shows "preserves f selfcons_fallback"
  unfolding selfcons_fallback_def
  by (rule preserves_state) (intro preserves_intros assms)

lemma preserves_selfcons_yesterday_part:
  assumes "\<And>s x. f (s\<lparr>published := x\<rparr>) = f s"
  shows "preserves f (selfcons_yesterday_part data idx)"
proof (cases idx)
  case None
  then show ?thesis
    by (simp add: selfcons_yesterday_part_def preserves_selfcons_fallback [OF assms])
next
  case (Some i)
  show ?thesis
    unfolding selfcons_yesterday_part_def Some option.case
    by (intro preserves_intros assms preserves_selfcons_fallback)
qed


section \<open>Self-consumption of today and yesterday\<close>

lemma window_rows:
  assumes "\<forall>r \<in> set (take DAYS_TO_CHECK_HISTORY rows). P r"
  shows "\<forall>i \<in> set [0..<min DAYS_TO_CHECK_HISTORY (length rows)]. i < length rows \<and> P (rows ! i)"
proof
  fix i
  assume "i \<in> set [0..<min DAYS_TO_CHECK_HISTORY (length rows)]"
  then have i: "i < DAYS_TO_CHECK_HISTORY" "i < length rows" by auto
  then have "rows ! i \<in> set (take DAYS_TO_CHECK_HISTORY rows)"
    by (metis in_set_conv_nth length_take min_less_iff_conj nth_take)
  with assms i show "i < length rows \<and> P (rows ! i)" by blast
qed

lemma fallback_run:
  assumes "last_selfcons_yesterday_fallback s = JInt v"
  shows "selfcons_fallback s =
     (Inr (), s\<lparr>published := published s @
        [(''SelfCons/selfconsyesterday'', Js (JInt v)),
         (''SelfCons/selfconsratioyesterday'', last_selfcons_ratio_yesterday_fallback s)]\<rparr>)"
  using assms by (simp add: selfcons_fallback_def run_simps)

text \<open>
  C10.  When the rows of the window (the first 31) are lists and none of them carries
  today's or yesterday's date, and the fallback cache still holds its initial values,
  \<^verbatim>\<open>process_self_consumption\<close> publishes exactly \<^verbatim>\<open>SelfCons/selfconsyesterday\<close> = 99 and
  \<^verbatim>\<open>SelfCons/selfconsratioyesterday\<close> = 99.  The cache keeps its values through every
  call that finds no row of today, so it is still initial when no earlier call matched
  one.
\<close>

theorem selfcons_fallback_sentinel:
  "((\<forall>r \<in> set (take DAYS_TO_CHECK_HISTORY rows).
        is_list r \<and> \<not> row_has_date today r \<and> \<not> row_has_date yesterday r)
     \<and> last_selfcons_yesterday_fallback s = last_selfcons_yesterday_fallback init_dp
     \<and> last_selfcons_ratio_yesterday_fallback s = last_selfcons_ratio_yesterday_fallback init_dp
     \<longrightarrow> process_self_consumption today yesterday (JList rows) s =
          (Inr (), s\<lparr>published := published s @
             [(''SelfCons/selfconsyesterday'', Js (JInt 99)),
              (''SelfCons/selfconsratioyesterday'', Js (JInt 99))]\<rparr>))
   \<and> ((\<forall>r \<in> set (take DAYS_TO_CHECK_HISTORY rows). is_list r \<and> \<not> row_has_date today r)
     \<longrightarrow> last_selfcons_yesterday_fallback
            (snd (process_self_consumption today yesterday (JList rows) s))
          = last_selfcons_yesterday_fallback s
        \<and> last_selfcons_ratio_yesterday_fallback
            (snd (process_self_consumption today yesterday (JList rows) s))
          = last_selfcons_ratio_yesterday_fallback s)"
proof (intro conjI impI)
  assume a: "(\<forall>r \<in> set (take DAYS_TO_CHECK_HISTORY rows).
        is_list r \<and> \<not> row_has_date today r \<and> \<not> row_has_date yesterday r)
     \<and> last_selfcons_yesterday_fallback s = last_selfcons_yesterday_fallback init_dp
     \<and> last_selfcons_ratio_yesterday_fallback s = last_selfcons_ratio_yesterday_fallback init_dp"
  then have fb: "last_selfcons_yesterday_fallback s = JInt 99"
    "last_selfcons_ratio_yesterday_fallback s = Js (JInt 99)"
    by (simp_all add: init_dp_def)
  from a have "\<forall>r \<in> set (take DAYS_TO_CHECK_HISTORY rows).
        is_list r \<and> \<not> row_has_date today r \<and> \<not> row_has_date yesterday r" by blast
  from window_rows [OF this]
  have "\<forall>i \<in> set [0..<min DAYS_TO_CHECK_HISTORY (length rows)]. i < length rows \<and>
      is_list (rows ! i) \<and> \<not> row_has_date today (rows ! i)
      \<and> \<not> row_has_date yesterday (rows ! i)" by simp
  from scan_dates_none_both [OF this]
  have scan: "scan_dates today yesterday (JList rows)
      [0..<min DAYS_TO_CHECK_HISTORY (length rows)] (None, None) = Inr (None, None)" .
  show "process_self_consumption today yesterday (JList rows) s =
          (Inr (), s\<lparr>published := published s @
             [(''SelfCons/selfconsyesterday'', Js (JInt 99)),
              (''SelfCons/selfconsratioyesterday'', Js (JInt 99))]\<rparr>)"
    using fallback_run [OF fb(1)] fb(2)
    by (simp add: process_self_consumption_def scan selfcons_today_part_def
        selfcons_yesterday_part_def try_except_def andthen_def lift_def ret_def)
next
  assume "\<forall>r \<in> set (take DAYS_TO_CHECK_HISTORY rows). is_list r \<and> \<not> row_has_date today r"
  from window_rows [OF this]
  have "\<forall>i \<in> set [0..<min DAYS_TO_CHECK_HISTORY (length rows)]. i < length rows \<and>
      is_list (rows ! i) \<and> \<not> row_has_date today (rows ! i)" by simp
  from scan_dates_none [OF this, of yesterday "(None, None)"] obtain y' where
    scan: "scan_dates today yesterday (JList rows)
      [0..<min DAYS_TO_CHECK_HISTORY (length rows)] (None, None) = Inr (None, y')" by auto
  have run: "process_self_consumption today yesterday (JList rows) =
      try_except (selfcons_yesterday_part (JList rows) y') Exception (ret ())"
    by (simp add: process_self_consumption_def scan selfcons_today_part_def run_simps)
  have p1: "preserves last_selfcons_yesterday_fallback
      (try_except (selfcons_yesterday_part (JList rows) y') Exception (ret ()))"
    by (intro preserves_try_except preserves_selfcons_yesterday_part preserves_ret) simp
  have p2: "preserves last_selfcons_ratio_yesterday_fallback
      (try_except (selfcons_yesterday_part (JList rows) y') Exception (ret ()))"
    by (intro preserves_try_except preserves_selfcons_yesterday_part preserves_ret) simp
  show "last_selfcons_yesterday_fallback
            (snd (process_self_consumption today yesterday (JList rows) s))
          = last_selfcons_yesterday_fallback s"
    unfolding run by (rule preservesD [OF p1])
  show "last_selfcons_ratio_yesterday_fallback
            (snd (process_self_consumption today yesterday (JList rows) s))
          = last_selfcons_ratio_yesterday_fallback s"
    unfolding run by (rule preservesD [OF p2])
qed

theorem selfcons_fallback_sentinel_witness:
  "take DAYS_TO_CHECK_HISTORY [JList [JStr ''01.11.26'', JInt 50]]
     = [JList [JStr ''01.11.26'', JInt 50]]
   \<and> is_list (JList [JStr ''01.11.26'', JInt 50])
   \<and> \<not> row_has_date ''04.11.26'' (JList [JStr ''01.11.26'', JInt 50])
   \<and> \<not> row_has_date ''03.11.26'' (JList [JStr ''01.11.26'', JInt 50])
   \<and> process_self_consumption ''04.11.26'' ''03.11.26''
        (JList [JList [JStr ''01.11.26'', JInt 50]]) init_dp =
          (Inr (), init_dp\<lparr>published := published init_dp @
             [(''SelfCons/selfconsyesterday'', Js (JInt 99)),
              (''SelfCons/selfconsratioyesterday'', Js (JInt 99))]\<rparr>)"
proof -
  have t: "take DAYS_TO_CHECK_HISTORY [JList [JStr ''01.11.26'', JInt 50]]
     = [JList [JStr ''01.11.26'', JInt 50]]"
    by (simp add: DAYS_TO_CHECK_HISTORY_def)
  have h: "is_list (JList [JStr ''01.11.26'', JInt 50])
     \<and> \<not> row_has_date ''04.11.26'' (JList [JStr ''01.11.26'', JInt 50])
     \<and> \<not> row_has_date ''03.11.26'' (JList [JStr ''01.11.26'', JInt 50])"
    by (simp add: row_has_date_def py_str_def str_contains_def)
  from selfcons_fallback_sentinel [of "[JList [JStr ''01.11.26'', JInt 50]]" "''04.11.26''"
      "''03.11.26''" init_dp] h t
  show ?thesis by simp
qed

lemma appends_battery_day_pubs [simp]: "appends (battery_day_pubs nm entry)"
  unfolding battery_day_pubs_def by (intro appends_andthen appends_lift appends_publish)

lemma appends_selfcons_fallback [simp]: "appends selfcons_fallback"
  unfolding selfcons_fallback_def
  by (rule appends_state) (intro appends_andthen appends_lift appends_publish)

lemma appends_reader [simp]: "appends (\<lambda>s. (g s, s))"
  by (simp add: appends_def)

lemma appends_selfcons_yesterday_part [simp]: "appends (selfcons_yesterday_part data idx)"
proof (cases idx)
  case None
  then show ?thesis by (simp add: selfcons_yesterday_part_def)
next
  case (Some i)
  show ?thesis
    unfolding selfcons_yesterday_part_def Some option.case
    by (intro appends_andthen appends_if appends_lift appends_publish appends_reader
        appends_selfcons_fallback)
qed

lemma appends_battery_today_part [simp]: "appends (battery_today_part entry n)"
  unfolding battery_today_part_def
  by (rule appends_state)
     (intro appends_andthen appends_if appends_lift appends_ret appends_battery_day_pubs)

lemma today_part_run:
  assumes k: "k < length rows" and row: "rows ! k = JList (d # JInt S # others)"
    and ok: "0 < last_yield_day s \<longrightarrow> ratio_in_range S (last_yield_day s)"
  shows "selfcons_today_part (JList rows) (Some k) s =
     battery_today_part (rows ! k) (Suc (Suc (length others)))
       (s\<lparr>published := published s @
            [(''SelfCons/selfconstoday'', Js (JInt S)),
             (''SelfCons/selfconsratiotoday'',
              if last_yield_day s > 0 then Fl (ratio_float S (last_yield_day s))
              else Js (JInt 0))],
          last_selfcons_yesterday_fallback := JInt S,
          last_selfcons_ratio_yesterday_fallback :=
            (if last_yield_day s > 0 then Fl (ratio_float S (last_yield_day s))
             else Js (JInt 0))\<rparr>)"
proof -
  have p: "py_or (JInt S) (JInt 0) = JInt S" by (simp add: py_or_def)
  show ?thesis
    using k row ok
    by (simp add: selfcons_today_part_def battery_today_part_def p day_ratio_int andthen_def
        lift_def publish_def)
qed

text \<open>A ratio that overflows ends the decoding after today's value has been published.\<close>

lemma today_part_overflow:
  assumes k: "k < length rows" and row: "rows ! k = JList (d # JInt S # others)"
    and pos: "0 < last_yield_day s" and over: "\<not> ratio_in_range S (last_yield_day s)"
  shows "selfcons_today_part (JList rows) (Some k) s =
     (Inl OverflowError,
      s\<lparr>published := published s @ [(''SelfCons/selfconstoday'', Js (JInt S))]\<rparr>)"
proof -
  have p: "py_or (JInt S) (JInt 0) = JInt S" by (simp add: py_or_def)
  have dr: "day_ratio (JInt S) (last_yield_day s) = Inl OverflowError"
    unfolding day_ratio_int using pos over by auto
  show ?thesis
    using k row pos
    by (simp add: selfcons_today_part_def p dr andthen_def lift_def publish_def)
qed

text \<open>
  C7.  When the rows of the window are lists and the last of them carrying today's date
  has the integer \<open>S\<close> as its second field, \<^verbatim>\<open>process_self_consumption\<close> publishes
  \<^verbatim>\<open>SelfCons/selfconstoday\<close> = \<open>S\<close> and then \<^verbatim>\<open>SelfCons/selfconsratiotoday\<close>: the float
  \<open>round((S / Y) * 1000) / 10\<close>, computed in float arithmetic, when the last-seen daily
  yield \<open>Y\<close> is positive, and the integer 0 otherwise.  Only when \<open>S / Y\<close> or its product
  with 1000 is too large for a float (then the expression raises \<^verbatim>\<open>OverflowError\<close>) is
  no ratio published, and nothing else after today's value.
\<close>

theorem selfcons_ratio_today:
  assumes lists: "\<forall>r \<in> set (take DAYS_TO_CHECK_HISTORY rows). is_list r"
    and k: "k < min DAYS_TO_CHECK_HISTORY (length rows)"
    and row: "rows ! k = JList (d # JInt S # others)"
    and today: "str_contains today (py_str d)"
    and after: "\<forall>j. k < j \<and> j < min DAYS_TO_CHECK_HISTORY (length rows)
                  \<longrightarrow> \<not> row_has_date today (rows ! j)"
  shows "\<exists>rest. published (snd (process_self_consumption today yesterday (JList rows) s)) =
     published s @
       (''SelfCons/selfconstoday'', Js (JInt S)) #
       (if last_yield_day s > 0 then
          (if ratio_in_range S (last_yield_day s)
           then (''SelfCons/selfconsratiotoday'', Fl (ratio_float S (last_yield_day s))) # rest
           else [])
        else (''SelfCons/selfconsratiotoday'', Js (JInt 0)) # rest)"
proof -
  let ?n = "min DAYS_TO_CHECK_HISTORY (length rows)"
  from window_rows [OF lists]
  have l: "\<forall>i < ?n. i < length rows \<and> is_list (rows ! i)" by simp
  have m: "row_has_date today (rows ! k)"
    using row today by (simp add: row_has_date_def)
  from scan_dates_last_match [OF l k m after, of yesterday "(None, None)"] obtain y' where
    scan: "scan_dates today yesterday (JList rows) [0..<?n] (None, None) = Inr (Some k, y')"
    by auto
  from k have kl: "k < length rows" by simp
  have step: "process_self_consumption today yesterday (JList rows) =
      try_except
        (andthen (selfcons_today_part (JList rows) (Some k))
           (\<lambda>_. selfcons_yesterday_part (JList rows) y'))
        Exception (ret ())"
    by (simp add: process_self_consumption_def scan run_simps)
  show ?thesis
  proof (cases "0 < last_yield_day s \<and> \<not> ratio_in_range S (last_yield_day s)")
    case True
    then have pos: "0 < last_yield_day s" and over: "\<not> ratio_in_range S (last_yield_day s)"
      by blast+
    have "process_self_consumption today yesterday (JList rows) s =
        (Inr (), s\<lparr>published := published s @ [(''SelfCons/selfconstoday'', Js (JInt S))]\<rparr>)"
      unfolding step
      by (simp add: try_except_def andthen_def today_part_overflow [OF kl row pos over]
          Exception_def ret_def)
    with True show ?thesis by auto
  next
    case False
    then have ok: "0 < last_yield_day s \<longrightarrow> ratio_in_range S (last_yield_day s)" by blast
    let ?ratio = "if last_yield_day s > 0 then Fl (ratio_float S (last_yield_day s))
         else Js (JInt 0)"
    let ?two = "[(''SelfCons/selfconstoday'', Js (JInt S)),
        (''SelfCons/selfconsratiotoday'', ?ratio)]"
    let ?s2 = "s\<lparr>published := published s @ ?two,
          last_selfcons_yesterday_fallback := JInt S,
          last_selfcons_ratio_yesterday_fallback := ?ratio\<rparr>"
    define cont :: "unit run" where
      "cont = try_except
         (andthen (battery_today_part (rows ! k) (Suc (Suc (length others))))
            (\<lambda>_. selfcons_yesterday_part (JList rows) y'))
         Exception (ret ())"
    have ap: "appends cont"
      unfolding cont_def
      by (intro appends_try_except appends_andthen appends_battery_today_part
          appends_selfcons_yesterday_part appends_ret)
    have run: "process_self_consumption today yesterday (JList rows) s = cont ?s2"
      unfolding step cont_def
      by (simp add: try_except_def andthen_def today_part_run [OF kl row ok])
    from appendsD [OF ap, of ?s2] obtain rest where
      "published (snd (cont ?s2)) = published ?s2 @ rest" by auto
    with run have "published (snd (process_self_consumption today yesterday (JList rows) s)) =
        published s @ ?two @ rest" by simp
    with ok show ?thesis by (intro exI [of _ rest]) auto
  qed
qed

theorem selfcons_ratio_today_witness:
  "is_list (JList [JStr ''03.11.26'', JInt 50])
   \<and> is_list (JList [JStr ''04.11.26'', JInt 203])
   \<and> (1::nat) < min DAYS_TO_CHECK_HISTORY (length [JList [JStr ''03.11.26'', JInt 50],
                                   JList [JStr ''04.11.26'', JInt 203]])
   \<and> str_contains ''04.11.26'' (py_str (JStr ''04.11.26''))
   \<and> ratio_in_range 203 400
   \<and> (\<exists>rest. published (snd (process_self_consumption ''04.11.26'' ''03.11.26''
         (JList [JList [JStr ''03.11.26'', JInt 50], JList [JStr ''04.11.26'', JInt 203]])
         (init_dp\<lparr>last_yield_day := 400\<rparr>))) =
       published (init_dp\<lparr>last_yield_day := 400\<rparr>) @
         [(''SelfCons/selfconstoday'', Js (JInt 203)),
          (''SelfCons/selfconsratiotoday'', Fl (float_of (507 / 10)))] @ rest)"
proof -
  let ?rows = "[JList [JStr ''03.11.26'', JInt 50], JList [JStr ''04.11.26'', JInt 203]]"
  have lists: "\<forall>r \<in> set (take DAYS_TO_CHECK_HISTORY ?rows). is_list r"
    by (simp add: DAYS_TO_CHECK_HISTORY_def)
  have k: "(1::nat) < min DAYS_TO_CHECK_HISTORY (length ?rows)"
    by (simp add: DAYS_TO_CHECK_HISTORY_def)
  have row: "?rows ! 1 = JList (JStr ''04.11.26'' # JInt 203 # [])" by simp
  have today: "str_contains ''04.11.26'' (py_str (JStr ''04.11.26''))"
    by (simp add: py_str_def str_contains_def)
  have after: "\<forall>j. 1 < j \<and> j < min DAYS_TO_CHECK_HISTORY (length ?rows)
                  \<longrightarrow> \<not> row_has_date ''04.11.26'' (?rows ! j)"
    by (auto simp: DAYS_TO_CHECK_HISTORY_def)
  note r = ratio_203_400
  from selfcons_ratio_today [OF lists k row today after, of "''03.11.26''"
      "init_dp\<lparr>last_yield_day := 400\<rparr>"]
  have "\<exists>rest. published (snd (process_self_consumption ''04.11.26'' ''03.11.26''
         (JList ?rows) (init_dp\<lparr>last_yield_day := 400\<rparr>))) =
       published (init_dp\<lparr>last_yield_day := 400\<rparr>) @
         [(''SelfCons/selfconstoday'', Js (JInt 203)),
          (''SelfCons/selfconsratiotoday'', Fl (float_of (507 / 10)))] @ rest"
    using r by simp
  with k today r(1) show ?thesis by simp
qed

section \<open>Device classification\<close>

lemma get_from_indexed_TypeError: "get_from_indexed c i = Inl e \<Longrightarrow> e = TypeError"
  by (cases c; cases i) (auto split: sum.splits)

lemma classify_one_ok:
  assumes "\<not> brand_lookup_raises dl bl info"
  shows "classify_one dl bl i info acc =
     Inr (acc\<lparr>acc_types := acc_types acc @ [fst (lone_entry dl bl info)],
              acc_brands := acc_brands acc @ [fst (snd (lone_entry dl bl info))],
              acc_classes := acc_classes acc @ [snd (snd (lone_entry dl bl info))],
              acc_battery_index := acc_battery_index acc @
                (if snd (snd (lone_entry dl bl info)) = ''Batterie'' then [i] else []),
              acc_battery_device_present :=
                (acc_battery_device_present acc
                 \<or> snd (snd (lone_entry dl bl info)) = ''Batterie'')\<rparr>)"
proof (cases "get_from_indexed dl (int_or_self info)")
  case (Inl e)
  then have "e = TypeError" by (rule get_from_indexed_TypeError)
  with Inl show ?thesis
    by (simp add: classify_one_def lone_entry_def inner_caught_def append_unknown_def)
next
  case (Inr device_info)
  show ?thesis
  proof (cases "truthy device_info")
    case False
    with Inr show ?thesis
      by (simp add: classify_one_def lone_entry_def append_unknown_def)
  next
    case True
    with assms Inr obtain b where
      b: "get_from_indexed bl (int_or_self (brand_idx_of device_info)) = Inr b"
      by (auto simp: brand_lookup_raises_def split: sum.splits)
    with Inr True show ?thesis
      by (simp add: classify_one_def lone_entry_def Let_def)
  qed
qed

lemma classify_loop_ok:
  assumes "\<forall>z \<in> set zs. \<not> brand_lookup_raises dl bl (snd z)"
  shows "\<exists>acc'. classify_loop dl bl i zs acc = Inr acc'
     \<and> acc_types acc' = acc_types acc @ map (\<lambda>z. fst (lone_entry dl bl (snd z))) zs
     \<and> acc_brands acc' = acc_brands acc @ map (\<lambda>z. fst (snd (lone_entry dl bl (snd z)))) zs
     \<and> acc_classes acc' = acc_classes acc @ map (\<lambda>z. snd (snd (lone_entry dl bl (snd z)))) zs
     \<and> set (acc_battery_index acc') = set (acc_battery_index acc) \<union>
          {i + k |k. k < length zs \<and> snd (snd (lone_entry dl bl (snd (zs ! k)))) = ''Batterie''}"
  using assms
proof (induction zs arbitrary: i acc)
  case Nil
  then show ?case by simp
next
  case (Cons z zs)
  obtain name info where z: "z = (name, info)" by (cases z)
  let ?acc1 = "acc\<lparr>acc_types := acc_types acc @ [fst (lone_entry dl bl info)],
              acc_brands := acc_brands acc @ [fst (snd (lone_entry dl bl info))],
              acc_classes := acc_classes acc @ [snd (snd (lone_entry dl bl info))],
              acc_battery_index := acc_battery_index acc @
                (if snd (snd (lone_entry dl bl info)) = ''Batterie'' then [i] else []),
              acc_battery_device_present :=
                (acc_battery_device_present acc
                 \<or> snd (snd (lone_entry dl bl info)) = ''Batterie'')\<rparr>"
  from Cons.prems z have "\<not> brand_lookup_raises dl bl info" by simp
  then have one: "classify_one dl bl i info acc = Inr ?acc1" by (rule classify_one_ok)
  from Cons.prems have "\<forall>z \<in> set zs. \<not> brand_lookup_raises dl bl (snd z)" by simp
  from Cons.IH [OF this, of "Suc i" ?acc1] obtain acc' where
    run: "classify_loop dl bl (Suc i) zs ?acc1 = Inr acc'"
    and t: "acc_types acc' = acc_types ?acc1 @ map (\<lambda>z. fst (lone_entry dl bl (snd z))) zs"
    and b: "acc_brands acc' = acc_brands ?acc1 @ map (\<lambda>z. fst (snd (lone_entry dl bl (snd z)))) zs"
    and c: "acc_classes acc' = acc_classes ?acc1 @ map (\<lambda>z. snd (snd (lone_entry dl bl (snd z)))) zs"
    and bi: "set (acc_battery_index acc') = set (acc_battery_index ?acc1) \<union>
          {Suc i + k |k. k < length zs \<and> snd (snd (lone_entry dl bl (snd (zs ! k)))) = ''Batterie''}"
    by blast
  have loop: "classify_loop dl bl i (z # zs) acc = Inr acc'"
    using one run z by simp
  have shift: "{i + k |k. k < length (z # zs)
                  \<and> snd (snd (lone_entry dl bl (snd ((z # zs) ! k)))) = ''Batterie''}
      = (if snd (snd (lone_entry dl bl info)) = ''Batterie'' then {i} else {}) \<union>
        {Suc i + k |k. k < length zs \<and> snd (snd (lone_entry dl bl (snd (zs ! k)))) = ''Batterie''}"
    (is "?L = ?R")
  proof (rule set_eqI)
    fix x
    show "x \<in> ?L \<longleftrightarrow> x \<in> ?R"
    proof
      assume "x \<in> ?L"
      then obtain k where k: "x = i + k" "k < length (z # zs)"
        "snd (snd (lone_entry dl bl (snd ((z # zs) ! k)))) = ''Batterie''" by blast
      show "x \<in> ?R"
      proof (cases k)
        case 0
        with k z show ?thesis by simp
      next
        case (Suc k')
        with k have "x = Suc i + k'" "k' < length zs"
          "snd (snd (lone_entry dl bl (snd (zs ! k')))) = ''Batterie''" by simp_all
        then show ?thesis by blast
      qed
    next
      assume "x \<in> ?R"
      then consider "snd (snd (lone_entry dl bl info)) = ''Batterie''" "x = i"
        | k' where "x = Suc i + k'" "k' < length zs"
          "snd (snd (lone_entry dl bl (snd (zs ! k')))) = ''Batterie''"
        by (auto split: if_splits)
      then show "x \<in> ?L"
      proof cases
        case 1
        then have "x = i + 0" "0 < length (z # zs)"
          "snd (snd (lone_entry dl bl (snd ((z # zs) ! 0)))) = ''Batterie''"
          using z by simp_all
        then show ?thesis by blast
      next
        case 2
        then have "x = i + Suc k'" "Suc k' < length (z # zs)"
          "snd (snd (lone_entry dl bl (snd ((z # zs) ! Suc k')))) = ''Batterie''"
          by simp_all
        then show ?thesis by blast
      qed
    qed
  qed
  have "set (acc_battery_index acc') = set (acc_battery_index acc) \<union> ?L"
    unfolding shift bi by auto
  with loop t b c z show ?case by simp
qed


lemma classify_devices_ok:
  assumes "truthy (device_list s)" and "truthy (brand_list s)" and "device_infos s \<noteq> []"
    and ok: "\<forall>info \<in> set (device_infos s).
               \<not> brand_lookup_raises (device_list s) (brand_list s) info"
  shows "device_types (classify_devices s) =
           map (\<lambda>z. fst (lone_entry (device_list s) (brand_list s) (snd z)))
             (zip (inverter_names s) (device_infos s))"
    and "device_brands (classify_devices s) =
           map (\<lambda>z. fst (snd (lone_entry (device_list s) (brand_list s) (snd z))))
             (zip (inverter_names s) (device_infos s))"
    and "device_classes (classify_devices s) =
           map (\<lambda>z. snd (snd (lone_entry (device_list s) (brand_list s) (snd z))))
             (zip (inverter_names s) (device_infos s))"
    and "set (battery_index (classify_devices s)) =
           {k. k < length (zip (inverter_names s) (device_infos s))
               \<and> snd (snd (lone_entry (device_list s) (brand_list s)
                     (snd (zip (inverter_names s) (device_infos s) ! k)))) = ''Batterie''}"
proof -
  let ?zs = "zip (inverter_names s) (device_infos s)"
  let ?acc0 = "\<lparr>acc_types = [], acc_brands = [], acc_classes = [],
                 acc_battery_index = [], acc_battery_device_present = False\<rparr>"
  have "\<forall>z \<in> set ?zs. \<not> brand_lookup_raises (device_list s) (brand_list s) (snd z)"
    using ok by (auto dest: set_zip_rightD)
  from classify_loop_ok [OF this, of 0 ?acc0] obtain acc' where
    run: "classify_loop (device_list s) (brand_list s) 0 ?zs ?acc0 = Inr acc'"
    and t: "acc_types acc' = map (\<lambda>z. fst (lone_entry (device_list s) (brand_list s) (snd z))) ?zs"
    and b: "acc_brands acc' =
              map (\<lambda>z. fst (snd (lone_entry (device_list s) (brand_list s) (snd z)))) ?zs"
    and c: "acc_classes acc' =
              map (\<lambda>z. snd (snd (lone_entry (device_list s) (brand_list s) (snd z)))) ?zs"
    and bi: "set (acc_battery_index acc') =
           {0 + k |k. k < length ?zs
               \<and> snd (snd (lone_entry (device_list s) (brand_list s) (snd (?zs ! k)))) = ''Batterie''}"
    by auto
  have res: "classify_devices s =
      s\<lparr>device_types := acc_types acc', device_brands := acc_brands acc',
        device_classes := acc_classes acc',
        battery_device_present := acc_battery_device_present acc',
        battery_index := acc_battery_index acc'\<rparr>"
    using assms(1-3) run by (simp add: classify_devices_def)
  show "device_types (classify_devices s) =
           map (\<lambda>z. fst (lone_entry (device_list s) (brand_list s) (snd z))) ?zs"
    unfolding res using t by simp
  show "device_brands (classify_devices s) =
           map (\<lambda>z. fst (snd (lone_entry (device_list s) (brand_list s) (snd z)))) ?zs"
    unfolding res using b by simp
  show "device_classes (classify_devices s) =
           map (\<lambda>z. snd (snd (lone_entry (device_list s) (brand_list s) (snd z)))) ?zs"
    unfolding res using c by simp
  show "set (battery_index (classify_devices s)) =
           {k. k < length ?zs
               \<and> snd (snd (lone_entry (device_list s) (brand_list s) (snd (?zs ! k)))) = ''Batterie''}"
    unfolding res using bi by simp
qed

lemma lone_entry_missing:
  assumes "get_from_indexed dl (int_or_self info) = Inr e" and "\<not> truthy e"
  shows "lone_entry dl bl info = (JStr ''Unknown'', JStr ''Unknown'', ''Wechselrichter'')"
  using assms by (simp add: lone_entry_def)

lemma lone_entry_bitmask:
  assumes "get_from_indexed dl (int_or_self info) = Inr (JList xs)"
    and "5 < length xs" and "xs ! 5 = JInt m" and "0 < m"
  shows "fst (lone_entry dl bl info) = xs ! 1"
    and "snd (snd (lone_entry dl bl info)) =
           (if floor_log2 (nat m) < 10 then DEVICE_CLASS_LIST ! floor_log2 (nat m)
            else ''Wechselrichter'')"
proof -
  from assms(2) have t: "truthy (JList xs)" by auto
  show "fst (lone_entry dl bl info) = xs ! 1"
    using assms t by (simp add: lone_entry_def device_type_of_def)
  have "length DEVICE_CLASS_LIST = 10" by (simp add: DEVICE_CLASS_LIST_def)
  then show "snd (snd (lone_entry dl bl info)) =
           (if floor_log2 (nat m) < 10 then DEVICE_CLASS_LIST ! floor_log2 (nat m)
            else ''Wechselrichter'')"
    using assms t
    by (simp add: lone_entry_def dclass_of_def device_class_of_def class_index_def
        del: floor_log2.simps)
qed

text \<open>
  C3, as amended.  With non-empty tables, as many names as info codes, and no device
  whose brand lookup raises: the three result lists have one entry per device, and the
  entry of index \<open>j\<close> is the one the device gets when classified on its own; \<open>j\<close> is a
  battery index exactly when its class is the battery class.  A device whose table
  entry is missing or empty gets type and brand \<^verbatim>\<open>Unknown\<close> and the default class.  A
  device with a table entry of more than five fields and a positive bitmask \<open>m\<close> keeps
  the entry's type and gets the class at index \<open>floor(log2 m)\<close>, the default class when
  that index is 10 or more, whether or not \<open>m\<close> is a power of two.
\<close>

theorem classification_independent:
  assumes tables: "truthy (device_list s)" "truthy (brand_list s)"
    and len: "length (inverter_names s) = length (device_infos s)"
    and ok: "\<forall>info \<in> set (device_infos s).
               \<not> brand_lookup_raises (device_list s) (brand_list s) info"
    and j: "j < length (device_infos s)"
  shows "length (device_types (classify_devices s)) = length (device_infos s)
     \<and> length (device_brands (classify_devices s)) = length (device_infos s)
     \<and> length (device_classes (classify_devices s)) = length (device_infos s)
     \<and> device_types (classify_devices s) ! j = hd (device_types (classified_alone s j))
     \<and> device_brands (classify_devices s) ! j = hd (device_brands (classified_alone s j))
     \<and> device_classes (classify_devices s) ! j = hd (device_classes (classified_alone s j))
     \<and> (j \<in> set (battery_index (classify_devices s))
          \<longleftrightarrow> device_classes (classify_devices s) ! j = ''Batterie'')
     \<and> (\<forall>e. get_from_indexed (device_list s) (int_or_self (device_infos s ! j)) = Inr e
              \<and> \<not> truthy e
          \<longrightarrow> device_types (classify_devices s) ! j = JStr ''Unknown''
              \<and> device_brands (classify_devices s) ! j = JStr ''Unknown''
              \<and> device_classes (classify_devices s) ! j = ''Wechselrichter'')
     \<and> (\<forall>xs m. get_from_indexed (device_list s) (int_or_self (device_infos s ! j))
                  = Inr (JList xs)
              \<and> 5 < length xs \<and> xs ! 5 = JInt m \<and> 0 < m
          \<longrightarrow> device_types (classify_devices s) ! j = xs ! 1
              \<and> device_classes (classify_devices s) ! j =
                  (if floor_log2 (nat m) < 10 then DEVICE_CLASS_LIST ! floor_log2 (nat m)
                   else ''Wechselrichter''))"
proof -
  let ?dl = "device_list s" and ?bl = "brand_list s"
  let ?zs = "zip (inverter_names s) (device_infos s)"
  from j have ne: "device_infos s \<noteq> []" by auto
  note all = classify_devices_ok [OF tables ne ok]
  have lz: "length ?zs = length (device_infos s)" using len by simp
  have zj: "snd (?zs ! j) = device_infos s ! j" using len j by simp
  have tj: "device_types (classify_devices s) ! j = fst (lone_entry ?dl ?bl (device_infos s ! j))"
    unfolding all(1) using lz j zj by simp
  have bj: "device_brands (classify_devices s) ! j =
      fst (snd (lone_entry ?dl ?bl (device_infos s ! j)))"
    unfolding all(2) using lz j zj by simp
  have cj: "device_classes (classify_devices s) ! j =
      snd (snd (lone_entry ?dl ?bl (device_infos s ! j)))"
    unfolding all(3) using lz j zj by simp
  let ?s1 = "s\<lparr>inverter_names := [inverter_names s ! j], device_infos := [device_infos s ! j]\<rparr>"
  have ok1: "\<forall>info \<in> set (device_infos ?s1).
               \<not> brand_lookup_raises (device_list ?s1) (brand_list ?s1) info"
    using ok j by simp
  have t1: "truthy (device_list ?s1)" "truthy (brand_list ?s1)" using tables by simp_all
  have ne1: "device_infos ?s1 \<noteq> []" by simp
  note alone = classify_devices_ok [OF t1 ne1 ok1]
  have ta: "hd (device_types (classified_alone s j)) = fst (lone_entry ?dl ?bl (device_infos s ! j))"
    unfolding classified_alone_def alone(1) by simp
  have ba: "hd (device_brands (classified_alone s j)) =
      fst (snd (lone_entry ?dl ?bl (device_infos s ! j)))"
    unfolding classified_alone_def alone(2) by simp
  have ca: "hd (device_classes (classified_alone s j)) =
      snd (snd (lone_entry ?dl ?bl (device_infos s ! j)))"
    unfolding classified_alone_def alone(3) by simp
  have bat: "j \<in> set (battery_index (classify_devices s))
          \<longleftrightarrow> device_classes (classify_devices s) ! j = ''Batterie''"
    unfolding all(4) cj using lz j zj by simp
  have miss: "\<forall>e. get_from_indexed ?dl (int_or_self (device_infos s ! j)) = Inr e \<and> \<not> truthy e
          \<longrightarrow> device_types (classify_devices s) ! j = JStr ''Unknown''
              \<and> device_brands (classify_devices s) ! j = JStr ''Unknown''
              \<and> device_classes (classify_devices s) ! j = ''Wechselrichter''"
    unfolding tj bj cj by (auto simp: lone_entry_missing)
  have mask: "\<forall>xs m. get_from_indexed ?dl (int_or_self (device_infos s ! j)) = Inr (JList xs)
              \<and> 5 < length xs \<and> xs ! 5 = JInt m \<and> 0 < m
          \<longrightarrow> device_types (classify_devices s) ! j = xs ! 1
              \<and> device_classes (classify_devices s) ! j =
                  (if floor_log2 (nat m) < 10 then DEVICE_CLASS_LIST ! floor_log2 (nat m)
                   else ''Wechselrichter'')"
    unfolding tj cj using lone_entry_bitmask by blast
  have lens: "length (device_types (classify_devices s)) = length (device_infos s)"
    "length (device_brands (classify_devices s)) = length (device_infos s)"
    "length (device_classes (classify_devices s)) = length (device_infos s)"
    unfolding all using lz by simp_all
  from lens tj bj cj ta ba ca bat miss mask show ?thesis by simp
qed


lemma example_site_fields:
  "inverter_names example_site = [JStr ''A'', JStr ''B'', JStr ''C'']"
  "device_infos example_site = [JInt 5, JInt 7, JInt 9]"
  "device_list example_site =
     JObj [(''5'', JList [JInt 1, JStr ''TypeX'', JInt 0, JInt 0, JInt 0, JInt 3]),
           (''9'', JList [JInt 2, JStr ''Batt'', JInt 0, JInt 0, JInt 0, JInt 16])]"
  "brand_list example_site = JObj [(''1'', JStr ''BrandY''), (''2'', JStr ''BrandZ'')]"
  by (simp_all add: example_site_def)

lemma example_site_lookups:
  "get_from_indexed (device_list example_site) (int_or_self (JInt 5)) =
     Inr (JList [JInt 1, JStr ''TypeX'', JInt 0, JInt 0, JInt 0, JInt 3])"
  "get_from_indexed (device_list example_site) (int_or_self (JInt 7)) = Inr JNull"
  "get_from_indexed (device_list example_site) (int_or_self (JInt 9)) =
     Inr (JList [JInt 2, JStr ''Batt'', JInt 0, JInt 0, JInt 0, JInt 16])"
  by (simp_all add: example_site_fields int_or_self_def py_str_def str_of_int_def dict_get_def
      digit_char_def)

lemma example_site_no_raise:
  "\<not> brand_lookup_raises (device_list example_site) (brand_list example_site) (JInt 5)"
  "\<not> brand_lookup_raises (device_list example_site) (brand_list example_site) (JInt 7)"
  "\<not> brand_lookup_raises (device_list example_site) (brand_list example_site) (JInt 9)"
  by (simp_all add: brand_lookup_raises_def example_site_lookups)
     (simp_all add: example_site_fields brand_idx_of_def int_or_self_def)

theorem classification_independent_witness:
  "truthy (device_list example_site) \<and> truthy (brand_list example_site)
   \<and> length (inverter_names example_site) = length (device_infos example_site)
   \<and> \<not> brand_lookup_raises (device_list example_site) (brand_list example_site) (JInt 5)
   \<and> \<not> brand_lookup_raises (device_list example_site) (brand_list example_site) (JInt 7)
   \<and> \<not> brand_lookup_raises (device_list example_site) (brand_list example_site) (JInt 9)
   \<and> (1::nat) < length (device_infos example_site)
   \<and> get_from_indexed (device_list example_site) (int_or_self (device_infos example_site ! 1))
        = Inr JNull
   \<and> length (device_types (classify_devices example_site)) = 3
   \<and> device_types (classify_devices example_site) ! 1 = JStr ''Unknown''
   \<and> device_brands (classify_devices example_site) ! 1 = JStr ''Unknown''
   \<and> device_classes (classify_devices example_site) ! 1 = ''Wechselrichter''"
proof -
  have t: "truthy (device_list example_site)" "truthy (brand_list example_site)"
    by (simp_all add: example_site_fields)
  have l: "length (inverter_names example_site) = length (device_infos example_site)"
    by (simp add: example_site_fields)
  have ok: "\<forall>info \<in> set (device_infos example_site).
      \<not> brand_lookup_raises (device_list example_site) (brand_list example_site) info"
    using example_site_no_raise by (simp add: example_site_fields(2))
  have j: "(1::nat) < length (device_infos example_site)"
    by (simp add: example_site_fields)
  have g: "get_from_indexed (device_list example_site)
      (int_or_self (device_infos example_site ! 1)) = Inr JNull"
    using example_site_lookups(2) by (simp add: example_site_fields(2))
  have n: "\<not> truthy JNull" by simp
  have len3: "length (device_infos example_site) = 3" by (simp add: example_site_fields)
  from classification_independent [OF t l ok j] g n len3
  have "length (device_types (classify_devices example_site)) = 3
   \<and> device_types (classify_devices example_site) ! 1 = JStr ''Unknown''
   \<and> device_brands (classify_devices example_site) ! 1 = JStr ''Unknown''
   \<and> device_classes (classify_devices example_site) ! 1 = ''Wechselrichter''"
    by metis
  with t l example_site_no_raise j g show ?thesis by blast
qed

text \<open>
  C3, as stated, fails: the first device of the example site has the class bitmask 3,
  which is not a power of two, and it is classified with its table type, its brand and
  the class at index 1, not as \<^verbatim>\<open>Unknown\<close> with the default class.
\<close>

theorem classification_bitmask_counterexample:
  "dclass_of (JList [JInt 1, JStr ''TypeX'', JInt 0, JInt 0, JInt 0, JInt 3]) = Some 3
   \<and> \<not> (\<exists>k. (3::int) = 2 ^ k)
   \<and> device_types (classify_devices example_site) ! 0 = JStr ''TypeX''
   \<and> device_brands (classify_devices example_site) ! 0 = JStr ''BrandY''
   \<and> device_classes (classify_devices example_site) ! 0 = ''Sensor''"
proof -
  have d: "dclass_of (JList [JInt 1, JStr ''TypeX'', JInt 0, JInt 0, JInt 0, JInt 3]) = Some 3"
    by (simp add: dclass_of_def)
  have p: "\<not> (\<exists>k. (3::int) = 2 ^ k)"
  proof
    assume "\<exists>k. (3::int) = 2 ^ k"
    then obtain k where k: "(3::int) = 2 ^ k" by blast
    show False
    proof (cases k)
      case 0
      with k show False by simp
    next
      case (Suc n)
      with k have "(3::int) = 2 * 2 ^ n" by simp
      then have "even (3::int)" by (metis dvd_triv_left)
      then show False by simp
    qed
  qed
  have t: "truthy (device_list example_site)" "truthy (brand_list example_site)"
    by (simp_all add: example_site_fields)
  have ne: "device_infos example_site \<noteq> []" by (simp add: example_site_fields)
  have ok: "\<forall>info \<in> set (device_infos example_site).
      \<not> brand_lookup_raises (device_list example_site) (brand_list example_site) info"
    using example_site_no_raise by (simp add: example_site_fields(2))
  note all = classify_devices_ok [OF t ne ok]
  have e: "lone_entry (device_list example_site) (brand_list example_site) (JInt 5)
      = (JStr ''TypeX'', JStr ''BrandY'', ''Sensor'')"
    by (simp add: lone_entry_def example_site_lookups d)
       (simp add: example_site_fields device_type_of_def brand_idx_of_def int_or_self_def
          py_str_def str_of_int_def dict_get_def digit_char_def device_class_of_def
          class_index_def DEVICE_CLASS_LIST_def)
  have "device_types (classify_devices example_site) ! 0 = JStr ''TypeX''"
    "device_brands (classify_devices example_site) ! 0 = JStr ''BrandY''"
    "device_classes (classify_devices example_site) ! 0 = ''Sensor''"
    unfolding all by (simp_all add: example_site_fields(1,2) e)
  with d p show ?thesis by blast
qed

end
